theory Spec2Isabelle
  imports Complex_Main
begin

section \<open>Canadian mortgage amortization: the calculation engine\<close>

text \<open>
  A shallow embedding of \<^verbatim>\<open>src/lib/mortgage.ts\<close> and of the types in
  \<^verbatim>\<open>src/types/mortgage.ts\<close>.

  Numbers. A TypeScript \<^verbatim>\<open>number\<close> that holds an amount or a rate is a \<^typ>\<open>real\<close>;
  a number that holds a payment index or a payment count is an \<^typ>\<open>int\<close>. IEEE
  rounding is not modelled, with one exception: the lump-sum limit of the limit check is
  rounded as the doubles of the source round it, because there the rounding decides the
  flag at limits such as 35 percent of 360000. Where IEEE arithmetic leaves the finite numbers (a division
  by zero gives \<^verbatim>\<open>Infinity\<close>, \<^verbatim>\<open>Math.pow\<close> of a negative base gives \<^verbatim>\<open>NaN\<close>)
  the model does not follow the value: such a number is \<open>None\<close>, and a run of the engine
  that uses one stops with \<open>NonFinite\<close>.
\<close>

subsection \<open>Data model (src/types/mortgage.ts)\<close>

datatype PaymentFrequency = Monthly | BiWeekly | Weekly | AcceleratedBiWeekly

record RenewalPeriod =
  startPayment :: int
  annualRate :: real
  termYears :: real

datatype AdditionalPaymentType = OneTime | Recurring

text \<open>The optional fields are options; \<open>None\<close> is \<^verbatim>\<open>undefined\<close>.\<close>

record AdditionalPayment =
  ap_type :: AdditionalPaymentType
  amount :: real
  ap_startPayment :: int
  endPayment :: "int option"
  frequency :: "int option"
  enabled :: "bool option"

datatype ResetPeriod = Calendar | Anniversary

record PrepaymentLimits =
  lumpSumLimitPercent :: real
  paymentIncreaseLimitPercent :: real
  resetPeriod :: ResetPeriod

text \<open>
  A JavaScript \<^verbatim>\<open>Date\<close>, read through \<^verbatim>\<open>getFullYear\<close>, \<^verbatim>\<open>getMonth\<close> (0 to 11) and
  \<^verbatim>\<open>getDate\<close> (day of the month). The time of day and the time zone are not modelled.
\<close>

record Date =
  getFullYear :: int
  getMonth :: int
  getDate :: int

record MortgageParams =
  purchasePrice :: real
  downPaymentPercent :: real
  additionalFinancing :: real
  cmhcPstRate :: real
  principal :: real
  amortizationYears :: real
  paymentFrequency :: PaymentFrequency
  startDate :: Date
  renewalPeriods :: "RenewalPeriod list"
  additionalPayments :: "AdditionalPayment list"
  prepaymentLimits :: "PrepaymentLimits option"

record PaymentDetail =
  pd_paymentNumber :: int
  pd_paymentDate :: Date
  pd_payment :: real
  pd_principal :: real
  pd_interest :: real
  pd_additionalPayment :: real
  pd_balance :: real
  pd_interestRate :: real
  pd_termNumber :: int
  pd_exceedsLimit :: "bool option"

record Summary =
  sm_purchasePrice :: real
  sm_downPayment :: real
  sm_downPaymentPercent :: real
  sm_mortgageAmount :: real
  sm_cmhcInsurance :: real
  sm_cmhcPremiumRate :: real
  sm_cmhcPst :: real
  sm_cmhcPstRate :: real
  sm_additionalFinancing :: real
  sm_originalPrincipal :: real
  sm_totalInterestPaid :: real
  sm_totalPaid :: real
  sm_totalAdditionalPayments :: real
  sm_interestSaved :: real
  sm_timeSaved :: real
  sm_amortizationYears :: real
  sm_actualPayoffMonths :: int
  sm_paymentFrequency :: PaymentFrequency
  sm_prepaymentLimitViolations :: "int option"

record AmortizationSchedule =
  sch_payments :: "PaymentDetail list"
  sch_totalInterest :: real
  sch_totalPrincipal :: real
  sch_totalPayments :: real
  sch_summary :: Summary

text \<open>
  \<open>Error msg\<close> is \<^verbatim>\<open>throw new Error(msg)\<close>. \<open>NonFinite\<close> is not an exception of the
  source: it marks a run whose arithmetic the real numbers do not follow.
\<close>

datatype error = Error string | NonFinite

subsection \<open>JavaScript built-ins used by the engine\<close>

text \<open>\<^verbatim>\<open>Math.round\<close> rounds to the nearest integer, a half towards plus infinity.\<close>

definition Math_round :: "real \<Rightarrow> int" where
  "Math_round x = \<lfloor>x + 1 / 2\<rfloor>"

text \<open>
  Rounding to an IEEE 754 double: to the nearest multiple of the unit in the last place,
  \<open>2\<close> to the power \<open>e - 52\<close> where \<open>2 ^ e \<le> \<bar>x\<bar> < 2 ^ (e + 1)\<close>, a tie going to the even
  multiple. Overflow and subnormal numbers are not modelled. \<open>bitLength n\<close> is the number
  of binary digits of \<open>n\<close>.
\<close>

fun bitLength :: "nat \<Rightarrow> nat" where
  "bitLength n = (if n = 0 then 0 else Suc (bitLength (n div 2)))"

declare bitLength.simps [simp del]

definition binaryExponent :: "real \<Rightarrow> int" where
  "binaryExponent a =
     (if 1 \<le> a then int (bitLength (nat \<lfloor>a\<rfloor>)) - 1
      else - int (bitLength (nat (\<lceil>1 / a\<rceil> - 1))))"

definition roundHalfEven :: "real \<Rightarrow> int" where
  "roundHalfEven q =
     (let f = \<lfloor>q\<rfloor>; d = q - of_int f
      in if d < 1 / 2 then f
         else if 1 / 2 < d then f + 1
         else if even f then f else f + 1)"

definition roundToDouble :: "real \<Rightarrow> real" where
  "roundToDouble x =
     (if x = 0 then 0
      else (let ulp = 2 powi (binaryExponent \<bar>x\<bar> - 52)
            in of_int (roundHalfEven (x / ulp)) * ulp))"

text \<open>The operators \<^verbatim>\<open>*\<close> and \<^verbatim>\<open>/\<close> on doubles.\<close>

definition doubleTimes :: "real \<Rightarrow> real \<Rightarrow> real" where
  "doubleTimes a b = roundToDouble (a * b)"

definition doubleDivide :: "real \<Rightarrow> real \<Rightarrow> real" where
  "doubleDivide a b = roundToDouble (a / b)"

text \<open>
  \<^verbatim>\<open>Math.pow\<close> on finite arguments: \<open>None\<close> where the result is \<^verbatim>\<open>Infinity\<close> (zero to a
  negative power) or \<^verbatim>\<open>NaN\<close> (a negative base to a power that is not an integer).
\<close>

definition Math_pow :: "real \<Rightarrow> real \<Rightarrow> real option" where
  "Math_pow x y =
     (if y = of_int \<lfloor>y\<rfloor> then
        (if x = 0 \<and> y < 0 then None else Some (power_int x \<lfloor>y\<rfloor>))
      else if x < 0 then None
      else if x = 0 then (if y < 0 then None else Some 0)
      else Some (x powr y))"

text \<open>
  \<^verbatim>\<open>Number.prototype.toString\<close> on an integer: its decimal digits, with a minus sign
  when negative.
\<close>

fun digitsOf :: "nat \<Rightarrow> string" where
  "digitsOf n =
     (if n < 10 then [''0123456789'' ! n]
      else digitsOf (n div 10) @ [''0123456789'' ! (n mod 10)])"

declare digitsOf.simps [simp del]

definition toString :: "int \<Rightarrow> string" where
  "toString i = (if i < 0 then CHR ''-'' # digitsOf (nat (- i)) else digitsOf (nat i))"

text \<open>
  The proleptic Gregorian calendar behind \<^verbatim>\<open>Date\<close>: the number of days from
  1970-01-01 to a date, and back. \<open>dayNumber\<close> takes the month as \<^verbatim>\<open>getMonth\<close> gives it.
\<close>

definition dayNumber :: "Date \<Rightarrow> int" where
  "dayNumber dt =
     (let m = getMonth dt + 1;
          y = (if m \<le> 2 then getFullYear dt - 1 else getFullYear dt);
          era = y div 400;
          yoe = y - era * 400;
          doy = (153 * (if m > 2 then m - 3 else m + 9) + 2) div 5 + getDate dt - 1;
          doe = yoe * 365 + yoe div 4 - yoe div 100 + doy
      in era * 146097 + doe - 719468)"

definition dateOfDayNumber :: "int \<Rightarrow> Date" where
  "dateOfDayNumber z0 =
     (let z = z0 + 719468;
          era = z div 146097;
          doe = z - era * 146097;
          yoe = (doe - doe div 1460 + doe div 36524 - doe div 146096) div 365;
          doy = doe - (365 * yoe + yoe div 4 - yoe div 100);
          mp = (5 * doy + 2) div 153;
          d = doy - (153 * mp + 2) div 5 + 1;
          m = (if mp < 10 then mp + 3 else mp - 9);
          y = yoe + era * 400
      in \<lparr> getFullYear = (if m \<le> 2 then y + 1 else y), getMonth = m - 1, getDate = d \<rparr>)"

text \<open>
  \<^verbatim>\<open>date.setDate(v)\<close>: the day \<open>v\<close> of the date's month, carried into the neighbouring
  months when \<open>v\<close> is outside the month.
\<close>

definition setDate :: "Date \<Rightarrow> int \<Rightarrow> Date" where
  "setDate dt v = dateOfDayNumber (dayNumber (dt\<lparr> getDate := 1 \<rparr>) + v - 1)"

subsection \<open>Insurance calculator\<close>

definition getCMHCPremiumRate :: "real \<Rightarrow> error + real" where
  "getCMHCPremiumRate downPaymentPercent' =
     (if downPaymentPercent' \<ge> 20 then Inr 0
      else if downPaymentPercent' \<ge> 15 then Inr 0.028
      else if downPaymentPercent' \<ge> 10 then Inr 0.031
      else if downPaymentPercent' \<ge> 5 then Inr 0.04
      else Inl (Error ''Down payment must be at least 5% for properties up to $500,000''))"

record InsuranceDetails =
  ins_downPayment :: real
  ins_mortgageAmount :: real
  ins_cmhcPremiumRate :: real
  ins_cmhcInsurance :: real
  ins_cmhcPst :: real
  ins_cmhcPstRate :: real
  ins_additionalFinancing :: real
  ins_totalPrincipal :: real

definition calculateMortgageWithInsurance ::
    "real \<Rightarrow> real \<Rightarrow> real \<Rightarrow> real \<Rightarrow> error + InsuranceDetails" where
  "calculateMortgageWithInsurance purchasePrice' downPaymentPercent' additionalFinancing' cmhcPstRate' =
     (let downPayment = purchasePrice' * (downPaymentPercent' / 100);
          mortgageAmount = purchasePrice' - downPayment
      in case getCMHCPremiumRate downPaymentPercent' of
           Inl e \<Rightarrow> Inl e
         | Inr cmhcPremiumRate \<Rightarrow>
             (let cmhcInsurance = mortgageAmount * cmhcPremiumRate;
                  cmhcPst = cmhcInsurance * cmhcPstRate';
                  totalPrincipal = mortgageAmount + cmhcInsurance + cmhcPst + additionalFinancing'
              in Inr \<lparr> ins_downPayment = downPayment,
                       ins_mortgageAmount = mortgageAmount,
                       ins_cmhcPremiumRate = cmhcPremiumRate,
                       ins_cmhcInsurance = cmhcInsurance,
                       ins_cmhcPst = cmhcPst,
                       ins_cmhcPstRate = cmhcPstRate',
                       ins_additionalFinancing = additionalFinancing',
                       ins_totalPrincipal = totalPrincipal \<rparr>))"

subsection \<open>Rate converter and payment sizer\<close>

fun getPaymentsPerYear :: "PaymentFrequency \<Rightarrow> int" where
  "getPaymentsPerYear Monthly = 12"
| "getPaymentsPerYear BiWeekly = 26"
| "getPaymentsPerYear AcceleratedBiWeekly = 26"
| "getPaymentsPerYear Weekly = 52"

definition getPeriodicRate :: "real \<Rightarrow> PaymentFrequency \<Rightarrow> real option" where
  "getPeriodicRate annualRate' frequency' =
     (let paymentsPerYear = getPaymentsPerYear frequency';
          semiAnnualRate = annualRate' / 2
      in case Math_pow (1 + semiAnnualRate) (2 / of_int paymentsPerYear) of
           None \<Rightarrow> None
         | Some pw \<Rightarrow> Some (pw - 1))"

text \<open>The periodic rate arrives as an option: \<open>None\<close> is \<^verbatim>\<open>NaN\<close>, which the formula hands on.\<close>

definition calculatePayment :: "real \<Rightarrow> real option \<Rightarrow> int \<Rightarrow> real option" where
  "calculatePayment principal' periodicRate numberOfPayments =
     (case periodicRate of
        None \<Rightarrow> None
      | Some r \<Rightarrow>
          if r = 0 then
            (if numberOfPayments = 0 then None else Some (principal' / of_int numberOfPayments))
          else
            (case Math_pow (1 + r) (of_int numberOfPayments) of
               None \<Rightarrow> None
             | Some pw \<Rightarrow>
                 if pw - 1 = 0 then None
                 else Some (principal' * (r * pw) / (pw - 1))))"

definition getPaymentCount :: "real \<Rightarrow> PaymentFrequency \<Rightarrow> int" where
  "getPaymentCount years frequency' = Math_round (years * of_int (getPaymentsPerYear frequency'))"

subsection \<open>Prepayment resolver\<close>

text \<open>
  One pass of the \<^verbatim>\<open>for ... of\<close> loop over the rules: the new value of
  \<^verbatim>\<open>totalAdditional\<close>. An end payment of 0 is falsy in \<^verbatim>\<open>addlPmt.endPayment && ...\<close>, and
  a frequency of 0 is falsy in \<^verbatim>\<open>addlPmt.frequency || 1\<close>.
\<close>

definition additionalPaymentStep :: "int \<Rightarrow> real \<Rightarrow> AdditionalPayment \<Rightarrow> real" where
  "additionalPaymentStep paymentNumber totalAdditional addlPmt =
     (if enabled addlPmt = Some False then totalAdditional
      else if paymentNumber < ap_startPayment addlPmt then totalAdditional
      else if (case endPayment addlPmt of
                 None \<Rightarrow> False
               | Some e \<Rightarrow> e \<noteq> 0 \<and> paymentNumber > e) then totalAdditional
      else (case ap_type addlPmt of
              OneTime \<Rightarrow>
                if paymentNumber = ap_startPayment addlPmt then totalAdditional + amount addlPmt
                else totalAdditional
            | Recurring \<Rightarrow>
                (let frequency' = (case frequency addlPmt of
                                     None \<Rightarrow> 1
                                   | Some f \<Rightarrow> if f = 0 then 1 else f);
                     paymentsSinceStart = paymentNumber - ap_startPayment addlPmt
                 in if paymentsSinceStart mod frequency' = 0 then totalAdditional + amount addlPmt
                    else totalAdditional)))"

definition getAdditionalPaymentAmount :: "int \<Rightarrow> AdditionalPayment list \<Rightarrow> real" where
  "getAdditionalPaymentAmount paymentNumber additionalPayments' =
     foldl (additionalPaymentStep paymentNumber) 0 additionalPayments'"

subsection \<open>Limit tracker\<close>

definition getPeriodIdentifier :: "Date \<Rightarrow> Date \<Rightarrow> ResetPeriod \<Rightarrow> string" where
  "getPeriodIdentifier date startDate' resetPeriod' =
     (case resetPeriod' of
        Calendar \<Rightarrow> toString (getFullYear date)
      | Anniversary \<Rightarrow>
          (let monthsSinceStart =
                 (getFullYear date - getFullYear startDate') * 12
                 + (getMonth date - getMonth startDate');
               anniversaryYear = monthsSinceStart div 12
           in ''anniversary-'' @ toString anniversaryYear))"

definition getDaysForPayment :: "int \<Rightarrow> PaymentFrequency \<Rightarrow> int" where
  "getDaysForPayment paymentNumber frequency' =
     (case frequency' of
        Monthly \<Rightarrow> Math_round (of_int (paymentNumber - 1) * 30.44)
      | BiWeekly \<Rightarrow> (paymentNumber - 1) * 14
      | AcceleratedBiWeekly \<Rightarrow> (paymentNumber - 1) * 14
      | Weekly \<Rightarrow> (paymentNumber - 1) * 7)"

subsection \<open>Amortization engine\<close>

text \<open>The variables of \<^verbatim>\<open>calculateAmortizationSchedule\<close> that its loops update.\<close>

record LoopState =
  st_balance :: real
  st_totalInterestPaid :: real
  st_totalAdditionalPayments :: real
  st_paymentNumber :: int
  st_prepaymentLimitViolations :: int
  st_currentPeriodLumpSum :: real
  st_currentPeriodIdentifier :: string
  st_payments :: "PaymentDetail list"

text \<open>The variables as declared before the loop over the terms.\<close>

definition initialState :: "MortgageParams \<Rightarrow> LoopState" where
  "initialState params =
     \<lparr> st_balance = principal params,
       st_totalInterestPaid = 0,
       st_totalAdditionalPayments = 0,
       st_paymentNumber = 1,
       st_prepaymentLimitViolations = 0,
       st_currentPeriodLumpSum = 0,
       st_currentPeriodIdentifier = [],
       st_payments = [] \<rparr>"

text \<open>
  The limit check inside the payment loop (\<^verbatim>\<open>if (prepaymentLimits && actualAdditionalPayment > 0)\<close>):
  it returns \<^verbatim>\<open>exceedsLimit\<close> and the three variables it updates, the period identifier,
  the period total and the violation count. The limit is
  \<^verbatim>\<open>principal * (prepaymentLimits.lumpSumLimitPercent / 100)\<close>, a division and a product
  of doubles.
\<close>

definition checkPrepaymentLimit ::
    "MortgageParams \<Rightarrow> Date \<Rightarrow> real \<Rightarrow> string \<times> real \<times> int \<Rightarrow> bool \<times> string \<times> real \<times> int" where
  "checkPrepaymentLimit params paymentDate actualAdditionalPayment tracker =
     (case tracker of (currentPeriodIdentifier, currentPeriodLumpSum, violations) \<Rightarrow>
        (case prepaymentLimits params of
           None \<Rightarrow> (False, currentPeriodIdentifier, currentPeriodLumpSum, violations)
         | Some limits \<Rightarrow>
             if actualAdditionalPayment > 0 then
               (let periodId = getPeriodIdentifier paymentDate (startDate params) (resetPeriod limits);
                    lumpSum0 = (if periodId \<noteq> currentPeriodIdentifier then 0
                                else currentPeriodLumpSum);
                    lumpSum = lumpSum0 + actualAdditionalPayment;
                    annualLumpSumLimit =
                      doubleTimes (principal params) (doubleDivide (lumpSumLimitPercent limits) 100)
                in if lumpSum > annualLumpSumLimit
                   then (True, periodId, lumpSum, violations + 1)
                   else (False, periodId, lumpSum, violations))
             else (False, currentPeriodIdentifier, currentPeriodLumpSum, violations)))"

text \<open>One pass of the body of the payment loop, up to \<^verbatim>\<open>paymentNumber++\<close>.\<close>

definition paymentStep ::
    "MortgageParams \<Rightarrow> RenewalPeriod \<Rightarrow> int \<Rightarrow> real \<Rightarrow> real \<Rightarrow> LoopState \<Rightarrow> LoopState" where
  "paymentStep params term termIndex periodicRate payment st =
     (let interestPayment = st_balance st * periodicRate;
          principalPayment = payment - interestPayment;
          actualPrincipalPayment = min principalPayment (st_balance st);
          actualPayment = actualPrincipalPayment + interestPayment;
          balance1 = st_balance st - actualPrincipalPayment;
          additionalPayment =
            getAdditionalPaymentAmount (st_paymentNumber st) (additionalPayments params);
          actualAdditionalPayment = min additionalPayment balance1;
          balance2 = balance1 - actualAdditionalPayment;
          paymentDate0 = startDate params;
          daysToAdd = getDaysForPayment (st_paymentNumber st) (paymentFrequency params);
          paymentDate = setDate paymentDate0 (getDate paymentDate0 + daysToAdd)
      in case checkPrepaymentLimit params paymentDate actualAdditionalPayment
                (st_currentPeriodIdentifier st, st_currentPeriodLumpSum st,
                 st_prepaymentLimitViolations st) of
           (exceedsLimit, periodId, lumpSum, violations) \<Rightarrow>
             \<lparr> st_balance = balance2,
               st_totalInterestPaid = st_totalInterestPaid st + interestPayment,
               st_totalAdditionalPayments = st_totalAdditionalPayments st + actualAdditionalPayment,
               st_paymentNumber = st_paymentNumber st + 1,
               st_prepaymentLimitViolations = violations,
               st_currentPeriodLumpSum = lumpSum,
               st_currentPeriodIdentifier = periodId,
               st_payments = st_payments st @
                 [\<lparr> pd_paymentNumber = st_paymentNumber st,
                    pd_paymentDate = paymentDate,
                    pd_payment = actualPayment,
                    pd_principal = actualPrincipalPayment,
                    pd_interest = interestPayment,
                    pd_additionalPayment = actualAdditionalPayment,
                    pd_balance = max 0 balance2,
                    pd_interestRate = annualRate term,
                    pd_termNumber = termIndex + 1,
                    pd_exceedsLimit = (if exceedsLimit then Some True else None) \<rparr>] \<rparr>)"

text \<open>
  The payment loop of one term,
  \<^verbatim>\<open>for (let i = 0; i < paymentsInTerm && balance > 0.01; i++) { ...; if (balance < 0.01) break; }\<close>.
  A pass that runs needs the rate and the payment of the term to be numbers.
\<close>

function paymentLoop ::
    "MortgageParams \<Rightarrow> RenewalPeriod \<Rightarrow> int \<Rightarrow> int \<Rightarrow> real option \<Rightarrow> real option \<Rightarrow> int
       \<Rightarrow> LoopState \<Rightarrow> error + LoopState" where
  "paymentLoop params term termIndex paymentsInTerm periodicRate payment i st =
     (if i < paymentsInTerm \<and> st_balance st > 0.01 then
        (case periodicRate of
           None \<Rightarrow> Inl NonFinite
         | Some r \<Rightarrow>
             (case payment of
                None \<Rightarrow> Inl NonFinite
              | Some pay \<Rightarrow>
                  (let st' = paymentStep params term termIndex r pay st
                   in if st_balance st' < 0.01 then Inr st'
                      else paymentLoop params term termIndex paymentsInTerm periodicRate payment
                             (i + 1) st')))
      else Inr st)"
  by pat_completeness auto
termination
  by (relation "measure (\<lambda>(params, term, termIndex, paymentsInTerm, periodicRate, payment, i, st).
        nat (paymentsInTerm - i))") auto

declare paymentLoop.simps [simp del]

text \<open>
  The loop over the sorted terms. The list holds the terms from \<^verbatim>\<open>sortedPeriods[termIndex]\<close>
  on, so \<^verbatim>\<open>nextTerm\<close> is the head of its tail.
\<close>

fun termLoop ::
    "MortgageParams \<Rightarrow> int \<Rightarrow> int \<Rightarrow> RenewalPeriod list \<Rightarrow> LoopState \<Rightarrow> error + LoopState" where
  "termLoop params totalPayments termIndex [] st = Inr st"
| "termLoop params totalPayments termIndex (term # rest) st =
     (let termStartPayment = startPayment term;
          termEndPayment = (case rest of
                              [] \<Rightarrow> totalPayments
                            | nextTerm # _ \<Rightarrow> startPayment nextTerm - 1);
          paymentsInTerm = termEndPayment - termStartPayment + 1;
          paymentsRemaining = totalPayments - st_paymentNumber st + 1;
          periodicRate = getPeriodicRate (annualRate term) (paymentFrequency params);
          payment = calculatePayment (st_balance st) periodicRate paymentsRemaining
      in case paymentLoop params term termIndex paymentsInTerm periodicRate payment 0 st of
           Inl e \<Rightarrow> Inl e
         | Inr st' \<Rightarrow>
             if st_balance st' < 0.01 then Inr st'
             else termLoop params totalPayments (termIndex + 1) rest st')"

text \<open>
  The second simulation, without additional payments. Its variables are
  \<^verbatim>\<open>balanceWithout\<close>, \<^verbatim>\<open>totalInterestWithout\<close> and \<^verbatim>\<open>currentPaymentNumber\<close>.
\<close>

function shadowPaymentLoop ::
    "int \<Rightarrow> int \<Rightarrow> real option \<Rightarrow> real option \<Rightarrow> real \<times> real \<times> int
       \<Rightarrow> error + real \<times> real \<times> int" where
  "shadowPaymentLoop termEndPayment totalPayments periodicRate payment
       (balanceWithout, totalInterestWithout, currentPaymentNumber) =
     (if currentPaymentNumber \<le> termEndPayment \<and> balanceWithout > 0.01
         \<and> currentPaymentNumber \<le> totalPayments then
        (case periodicRate of
           None \<Rightarrow> Inl NonFinite
         | Some r \<Rightarrow>
             (case payment of
                None \<Rightarrow> Inl NonFinite
              | Some pay \<Rightarrow>
                  (let interestPayment = balanceWithout * r;
                       principalPayment = pay - interestPayment;
                       actualPrincipalPayment = min principalPayment balanceWithout
                   in shadowPaymentLoop termEndPayment totalPayments periodicRate payment
                        (balanceWithout - actualPrincipalPayment,
                         totalInterestWithout + interestPayment,
                         currentPaymentNumber + 1))))
      else Inr (balanceWithout, totalInterestWithout, currentPaymentNumber))"
  by pat_completeness auto
termination
  by (relation "measure (\<lambda>(termEndPayment, totalPayments, periodicRate, payment, b, t, n).
        nat (totalPayments + 1 - n))") auto

declare shadowPaymentLoop.simps [simp del]

fun shadowTermLoop ::
    "MortgageParams \<Rightarrow> int \<Rightarrow> RenewalPeriod list \<Rightarrow> real \<times> real \<times> int
       \<Rightarrow> error + real \<times> real \<times> int" where
  "shadowTermLoop params totalPayments [] w = Inr w"
| "shadowTermLoop params totalPayments (term # rest) (balanceWithout, totalInterestWithout, currentPaymentNumber) =
     (if balanceWithout > 0.01 then
        (let termEndPayment = (case rest of
                                 [] \<Rightarrow> totalPayments
                               | nextTerm # _ \<Rightarrow> startPayment nextTerm - 1);
             paymentsRemaining = totalPayments - currentPaymentNumber + 1;
             periodicRate = getPeriodicRate (annualRate term) (paymentFrequency params);
             payment = calculatePayment balanceWithout periodicRate paymentsRemaining
         in case shadowPaymentLoop termEndPayment totalPayments periodicRate payment
                   (balanceWithout, totalInterestWithout, currentPaymentNumber) of
              Inl e \<Rightarrow> Inl e
            | Inr w \<Rightarrow> shadowTermLoop params totalPayments rest w)
      else Inr (balanceWithout, totalInterestWithout, currentPaymentNumber))"

text \<open>\<^verbatim>\<open>totalInterestWithout\<close> at the end of the second simulation.\<close>

definition interestWithoutAdditional :: "MortgageParams \<Rightarrow> error + real" where
  "interestWithoutAdditional params =
     (let totalPayments = getPaymentCount (amortizationYears params) (paymentFrequency params);
          sortedPeriods = sort_key startPayment (renewalPeriods params)
      in case shadowTermLoop params totalPayments sortedPeriods (principal params, 0, 1) of
           Inl e \<Rightarrow> Inl e
         | Inr (balanceWithout, totalInterestWithout, currentPaymentNumber) \<Rightarrow>
             Inr totalInterestWithout)"

definition calculateAmortizationSchedule :: "MortgageParams \<Rightarrow> error + AmortizationSchedule" where
  "calculateAmortizationSchedule params =
     (if renewalPeriods params = [] then
        Inl (Error ''At least one renewal period must be specified'')
      else
        (case calculateMortgageWithInsurance (purchasePrice params) (downPaymentPercent params)
                (additionalFinancing params) (cmhcPstRate params) of
           Inl e \<Rightarrow> Inl e
         | Inr insuranceDetails \<Rightarrow>
             (let totalPayments =
                    getPaymentCount (amortizationYears params) (paymentFrequency params);
                  sortedPeriods = sort_key startPayment (renewalPeriods params)
              in case termLoop params totalPayments 0 sortedPeriods (initialState params) of
                   Inl e \<Rightarrow> Inl e
                 | Inr st \<Rightarrow>
                     (let actualPayoffMonths =
                            Math_round (of_int (int (length (st_payments st)))
                                        / of_int (getPaymentsPerYear (paymentFrequency params)) * 12);
                          originalPayoffMonths = amortizationYears params * 12;
                          timeSaved = originalPayoffMonths - of_int actualPayoffMonths
                      in case (if st_totalAdditionalPayments st > 0 then
                                 (case interestWithoutAdditional params of
                                    Inl e \<Rightarrow> Inl e
                                  | Inr totalInterestWithout \<Rightarrow>
                                      Inr (max 0 (totalInterestWithout - st_totalInterestPaid st)))
                               else Inr 0) of
                           Inl e \<Rightarrow> Inl e
                         | Inr interestSaved \<Rightarrow>
                             Inr \<lparr> sch_payments = st_payments st,
                                   sch_totalInterest = st_totalInterestPaid st,
                                   sch_totalPrincipal = principal params,
                                   sch_totalPayments =
                                     foldl (\<lambda>sum p. sum + pd_payment p) 0 (st_payments st),
                                   sch_summary =
                                     \<lparr> sm_purchasePrice = purchasePrice params,
                                       sm_downPayment = ins_downPayment insuranceDetails,
                                       sm_downPaymentPercent = downPaymentPercent params,
                                       sm_mortgageAmount = ins_mortgageAmount insuranceDetails,
                                       sm_cmhcInsurance = ins_cmhcInsurance insuranceDetails,
                                       sm_cmhcPremiumRate = ins_cmhcPremiumRate insuranceDetails,
                                       sm_cmhcPst = ins_cmhcPst insuranceDetails,
                                       sm_cmhcPstRate = ins_cmhcPstRate insuranceDetails,
                                       sm_additionalFinancing =
                                         ins_additionalFinancing insuranceDetails,
                                       sm_originalPrincipal = principal params,
                                       sm_totalInterestPaid = st_totalInterestPaid st,
                                       sm_totalPaid = principal params + st_totalInterestPaid st,
                                       sm_totalAdditionalPayments = st_totalAdditionalPayments st,
                                       sm_interestSaved = interestSaved,
                                       sm_timeSaved = timeSaved,
                                       sm_amortizationYears = amortizationYears params,
                                       sm_actualPayoffMonths = actualPayoffMonths,
                                       sm_paymentFrequency = paymentFrequency params,
                                       sm_prepaymentLimitViolations =
                                         (case prepaymentLimits params of
                                            None \<Rightarrow> None
                                          | Some limits \<Rightarrow>
                                              Some (st_prepaymentLimitViolations st)) \<rparr> \<rparr>))))"

section \<open>The specification's formulations and example inputs\<close>

subsection \<open>The prepayment resolver as the specification words it\<close>

text \<open>
  A rule contributes at a payment index when it is active, the index lies in its window
  and its kind fires there; the interval of a recurring rule defaults to 1.
\<close>

definition ruleContributes :: "int \<Rightarrow> AdditionalPayment \<Rightarrow> bool" where
  "ruleContributes paymentIndex rule =
     (enabled rule \<noteq> Some False
      \<and> paymentIndex \<ge> ap_startPayment rule
      \<and> (case endPayment rule of None \<Rightarrow> True | Some e \<Rightarrow> paymentIndex \<le> e)
      \<and> (case ap_type rule of
            OneTime \<Rightarrow> paymentIndex = ap_startPayment rule
          | Recurring \<Rightarrow>
              (paymentIndex - ap_startPayment rule)
                mod (case frequency rule of None \<Rightarrow> 1 | Some f \<Rightarrow> f) = 0))"

definition extraAmountAt :: "int \<Rightarrow> AdditionalPayment list \<Rightarrow> real" where
  "extraAmountAt paymentIndex rules =
     sum_list (map amount (filter (ruleContributes paymentIndex) rules))"

subsection \<open>Example inputs\<close>

text \<open>
  Four rules: a one-time payment at 12, a recurring one every 6 payments from 6 to 24,
  a disabled one, and a recurring one on every payment up to 11.
\<close>

definition exampleRules :: "AdditionalPayment list" where
  "exampleRules =
     [\<lparr> ap_type = OneTime, amount = 10000, ap_startPayment = 12, endPayment = None,
         frequency = None, enabled = Some True \<rparr>,
      \<lparr> ap_type = Recurring, amount = 500, ap_startPayment = 6, endPayment = Some 24,
         frequency = Some 6, enabled = None \<rparr>,
      \<lparr> ap_type = Recurring, amount = 70, ap_startPayment = 1, endPayment = None,
         frequency = None, enabled = Some False \<rparr>,
      \<lparr> ap_type = Recurring, amount = 3, ap_startPayment = 1, endPayment = Some 11,
         frequency = None, enabled = None \<rparr>]"

text \<open>
  A one-year monthly mortgage at rate 0 on a price of 703125 with 20 percent down, so
  that the financed principal is 562500, with a limit of 15 percent per anniversary year
  and a recurring additional payment of 50000 at payments 1 and 2.
\<close>

definition limitExample :: MortgageParams where
  "limitExample =
     \<lparr> purchasePrice = 703125, downPaymentPercent = 20, additionalFinancing = 0,
       cmhcPstRate = 0, principal = 562500, amortizationYears = 1,
       paymentFrequency = Monthly,
       startDate = \<lparr> getFullYear = 2024, getMonth = 0, getDate = 15 \<rparr>,
       renewalPeriods = [\<lparr> startPayment = 1, annualRate = 0, termYears = 1 \<rparr>],
       additionalPayments =
         [\<lparr> ap_type = Recurring, amount = 50000, ap_startPayment = 1, endPayment = Some 2,
             frequency = None, enabled = None \<rparr>],
       prepaymentLimits =
         Some \<lparr> lumpSumLimitPercent = 15, paymentIncreaseLimitPercent = 15,
                resetPeriod = Anniversary \<rparr> \<rparr>"

text \<open>
  The same mortgage on a price of 625000 with 10 percent down: the insurance calculator
  finances 579937.50, and the \<open>principal\<close> field still says 562500.
\<close>

definition mismatchExample :: MortgageParams where
  "mismatchExample = limitExample\<lparr> purchasePrice := 625000, downPaymentPercent := 10 \<rparr>"

text \<open>The same mortgage without terms, and with a down payment of 4 percent.\<close>

definition noTermsExample :: MortgageParams where
  "noTermsExample = limitExample\<lparr> renewalPeriods := [] \<rparr>"

definition lowDownPaymentExample :: MortgageParams where
  "lowDownPaymentExample = limitExample\<lparr> downPaymentPercent := 4 \<rparr>"

subsection \<open>The ledger invariant as the specification words it\<close>

text \<open>
  Every entry has \<open>totalPayment = principalPortion + interestPortion\<close>, and its remaining
  balance is the remaining balance of the entry before it (\<open>b\<close> for the first entry) minus
  its principal portion minus its extra payment, floored at zero.
\<close>

fun ledgerChain :: "real \<Rightarrow> PaymentDetail list \<Rightarrow> bool" where
  "ledgerChain b [] = True"
| "ledgerChain b (e # es) =
     (pd_payment e = pd_principal e + pd_interest e
      \<and> pd_balance e = max 0 (b - pd_principal e - pd_additionalPayment e)
      \<and> ledgerChain (pd_balance e) es)"

text \<open>The remaining balance after a ledger that started from \<open>b\<close>.\<close>

definition lastBalance :: "real \<Rightarrow> PaymentDetail list \<Rightarrow> real" where
  "lastBalance b es = (if es = [] then b else pd_balance (last es))"

text \<open>The entry that one pass of the payment loop appends.\<close>

definition newEntry ::
    "MortgageParams \<Rightarrow> RenewalPeriod \<Rightarrow> int \<Rightarrow> real \<Rightarrow> real \<Rightarrow> LoopState \<Rightarrow> PaymentDetail" where
  "newEntry params term termIndex periodicRate payment st =
     last (st_payments (paymentStep params term termIndex periodicRate payment st))"

text \<open>The ledger invariant on the variables of the loop.\<close>

definition ledgerInvariant :: "real \<Rightarrow> LoopState \<Rightarrow> bool" where
  "ledgerInvariant b st =
     (ledgerChain b (st_payments st) \<and> st_balance st = lastBalance b (st_payments st))"

text \<open>The schedules that the engine returns on two of the example inputs.\<close>

definition limitExampleSchedule :: AmortizationSchedule where
  "limitExampleSchedule = projr (calculateAmortizationSchedule limitExample)"

definition mismatchExampleSchedule :: AmortizationSchedule where
  "mismatchExampleSchedule = projr (calculateAmortizationSchedule mismatchExample)"

subsection \<open>The ledger as a sequence of term blocks\<close>

text \<open>
  A block of ledger entries of one term: every entry starts from a balance above the
  tolerance, carries the number and the rate of the term, its interest is the balance
  before it times the periodic rate, and its principal portion is the level payment
  minus that interest, capped at the balance.
\<close>

fun levelBlock ::
    "real \<Rightarrow> real \<Rightarrow> real \<Rightarrow> int \<Rightarrow> real \<Rightarrow> int \<Rightarrow> PaymentDetail list \<Rightarrow> bool" where
  "levelBlock rate levelPayment annual termNo b idx [] = True"
| "levelBlock rate levelPayment annual termNo b idx (e # es) =
     (0.01 < b
      \<and> pd_paymentNumber e = idx \<and> pd_termNumber e = termNo \<and> pd_interestRate e = annual
      \<and> pd_interest e = b * rate
      \<and> pd_principal e = min (levelPayment - b * rate) b
      \<and> pd_payment e = pd_principal e + pd_interest e
      \<and> levelBlock rate levelPayment annual termNo (pd_balance e) (idx + 1) es)"

text \<open>
  The ledger term by term, as the algorithm of the engine is specified: a block for each
  term, no longer than the term's payment slots and shorter only when the balance has
  reached the tolerance; the level payment of a block is sized by the payment sizer from
  the balance at the entry to the term and the payments remaining to the end of the
  amortization, \<open>totalCount - idx + 1\<close>.
\<close>

fun termBlocks ::
    "MortgageParams \<Rightarrow> int \<Rightarrow> int \<Rightarrow> RenewalPeriod list \<Rightarrow> real \<Rightarrow> int \<Rightarrow> PaymentDetail list
       \<Rightarrow> bool" where
  "termBlocks params totalCount termNo [] b idx es = (es = [])"
| "termBlocks params totalCount termNo (term # rest) b idx es =
     (\<exists>blk more.
        es = blk @ more
        \<and> int (length blk)
            \<le> max 0 ((case rest of [] \<Rightarrow> totalCount | nextTerm # _ \<Rightarrow> startPayment nextTerm - 1)
                      - startPayment term + 1)
        \<and> (int (length blk)
              < max 0 ((case rest of [] \<Rightarrow> totalCount | nextTerm # _ \<Rightarrow> startPayment nextTerm - 1)
                       - startPayment term + 1)
            \<longrightarrow> lastBalance b blk \<le> 0.01)
        \<and> (blk \<noteq> [] \<longrightarrow>
             (\<exists>rate levelPayment.
                getPeriodicRate (annualRate term) (paymentFrequency params) = Some rate
                \<and> calculatePayment b (Some rate) (totalCount - idx + 1) = Some levelPayment
                \<and> levelBlock rate levelPayment (annualRate term) termNo b idx blk))
        \<and> termBlocks params totalCount (termNo + 1) rest (lastBalance b blk) (idx + int (length blk)) more)"

text \<open>
  A 25-year monthly mortgage of 400000 with a second term from payment 61, both terms at
  rate 0, and a one-time additional payment at payment 61 that retires the balance.
\<close>

definition renewalExample :: MortgageParams where
  "renewalExample =
     \<lparr> purchasePrice = 500000, downPaymentPercent = 20, additionalFinancing = 0,
       cmhcPstRate = 0, principal = 400000, amortizationYears = 25,
       paymentFrequency = Monthly,
       startDate = \<lparr> getFullYear = 2024, getMonth = 0, getDate = 15 \<rparr>,
       renewalPeriods = [\<lparr> startPayment = 1, annualRate = 0, termYears = 5 \<rparr>,
                         \<lparr> startPayment = 61, annualRate = 0, termYears = 20 \<rparr>],
       additionalPayments =
         [\<lparr> ap_type = OneTime, amount = 1000000, ap_startPayment = 61, endPayment = None,
             frequency = None, enabled = None \<rparr>],
       prepaymentLimits = None \<rparr>"

definition renewalExampleSchedule :: AmortizationSchedule where
  "renewalExampleSchedule = projr (calculateAmortizationSchedule renewalExample)"

subsection \<open>Invariants of a schedule whose terms start at payment 1\<close>

text \<open>
  The sum \<open>1 + (1 + r) + ... + (1 + r) ^ (m - 1)\<close>: a level payment \<open>P\<close> retires a balance
  \<open>b\<close> in \<open>m\<close> payments at the periodic rate \<open>r\<close> when \<open>b * (1 + r) ^ m = P * geomSum r m\<close>.
\<close>

primrec geomSum :: "real \<Rightarrow> nat \<Rightarrow> real" where
  "geomSum r 0 = 0"
| "geomSum r (Suc m) = geomSum r m + (1 + r) ^ m"

text \<open>
  The balance is within what the level payment of the term retires by the end of the
  amortization.
\<close>

definition annuityInvariant :: "real \<Rightarrow> real \<Rightarrow> int \<Rightarrow> LoopState \<Rightarrow> bool" where
  "annuityInvariant r levelPayment totalCount st =
     (0 \<le> levelPayment \<and> 0 \<le> st_balance st \<and> st_paymentNumber st \<le> totalCount + 1
      \<and> st_balance st * (1 + r) ^ nat (totalCount + 1 - st_paymentNumber st)
          \<le> levelPayment * geomSum r (nat (totalCount + 1 - st_paymentNumber st)))"

text \<open>The remaining balance never goes up along the ledger, starting from \<open>b\<close>.\<close>

fun descending :: "real \<Rightarrow> PaymentDetail list \<Rightarrow> bool" where
  "descending b [] = True"
| "descending b (e # es) = (pd_balance e \<le> b \<and> descending (pd_balance e) es)"

text \<open>
  What holds of the variables of the engine between two passes of its loops when the
  terms start at payment 1: the ledger descends from the starting balance, the payment
  number is one more than the length of the ledger, and it passes the nominal payment
  count only with the balance within the tolerance.
\<close>

definition scheduleInvariant :: "real \<Rightarrow> int \<Rightarrow> LoopState \<Rightarrow> bool" where
  "scheduleInvariant b totalCount st =
     (descending b (st_payments st)
      \<and> st_balance st = lastBalance b (st_payments st)
      \<and> st_paymentNumber st = int (length (st_payments st)) + 1
      \<and> st_paymentNumber st \<le> totalCount + 1
      \<and> (st_paymentNumber st = totalCount + 1 \<longrightarrow> st_balance st \<le> 0.01)
      \<and> 0 \<le> st_balance st)"

text \<open>
  The mortgage of \<open>limitExample\<close> without additional payments and with a single term that
  starts at payment 13, beyond the 12 nominal payments, and one that starts at payment 2.
\<close>

definition beyondHorizonExample :: MortgageParams where
  "beyondHorizonExample =
     limitExample\<lparr> renewalPeriods := [\<lparr> startPayment = 13, annualRate = 0, termYears = 1 \<rparr>],
                   additionalPayments := [] \<rparr>"

definition lateStartExample :: MortgageParams where
  "lateStartExample =
     limitExample\<lparr> renewalPeriods := [\<lparr> startPayment = 2, annualRate = 0, termYears = 1 \<rparr>],
                   additionalPayments := [] \<rparr>"




subsection \<open>The second simulation as the specification words it\<close>





subsection \<open>The prepayment resolver with an end index or an interval of 0 read as unset\<close>

text \<open>
  The wording of \<open>ruleContributes\<close>, except that an end index of 0 bounds nothing and an
  interval of 0 is the default interval 1, as for an unset one.
\<close>

definition ruleContributesUnlessZero :: "int \<Rightarrow> AdditionalPayment \<Rightarrow> bool" where
  "ruleContributesUnlessZero paymentIndex rule =
     (enabled rule \<noteq> Some False
      \<and> paymentIndex \<ge> ap_startPayment rule
      \<and> (case endPayment rule of None \<Rightarrow> True | Some e \<Rightarrow> e = 0 \<or> paymentIndex \<le> e)
      \<and> (case ap_type rule of
            OneTime \<Rightarrow> paymentIndex = ap_startPayment rule
          | Recurring \<Rightarrow>
              (paymentIndex - ap_startPayment rule)
                mod (case frequency rule of None \<Rightarrow> 1 | Some f \<Rightarrow> if f = 0 then 1 else f) = 0))"

definition extraAmountAtUnlessZero :: "int \<Rightarrow> AdditionalPayment list \<Rightarrow> real" where
  "extraAmountAtUnlessZero paymentIndex rules =
     sum_list (map amount (filter (ruleContributesUnlessZero paymentIndex) rules))"

text \<open>
  Two recurring rules of 7 from payment 1 on, one with an end index of 0 and one with an
  interval of 0, as the form of \<^verbatim>\<open>App.tsx\<close> stores them when 0 is entered.
\<close>

definition endZeroRule :: AdditionalPayment where
  "endZeroRule =
     \<lparr> ap_type = Recurring, amount = 7, ap_startPayment = 1, endPayment = Some 0,
       frequency = None, enabled = Some True \<rparr>"

definition intervalZeroRule :: AdditionalPayment where
  "intervalZeroRule =
     \<lparr> ap_type = Recurring, amount = 7, ap_startPayment = 1, endPayment = None,
       frequency = Some 0, enabled = Some True \<rparr>"

text \<open>
  A one-year monthly mortgage of 360000 at rate 0 on a price of 450000 with 20 percent
  down, with a limit of 35 percent per anniversary year, which the form displays as
  126000, and a one-time additional payment of exactly 126000 at payment 1.
\<close>

definition boundaryExample :: MortgageParams where
  "boundaryExample =
     \<lparr> purchasePrice = 450000, downPaymentPercent = 20, additionalFinancing = 0,
       cmhcPstRate = 0, principal = 360000, amortizationYears = 1,
       paymentFrequency = Monthly,
       startDate = \<lparr> getFullYear = 2024, getMonth = 0, getDate = 15 \<rparr>,
       renewalPeriods = [\<lparr> startPayment = 1, annualRate = 0, termYears = 1 \<rparr>],
       additionalPayments =
         [\<lparr> ap_type = OneTime, amount = 126000, ap_startPayment = 1, endPayment = None,
             frequency = None, enabled = None \<rparr>],
       prepaymentLimits =
         Some \<lparr> lumpSumLimitPercent = 35, paymentIncreaseLimitPercent = 15,
                resetPeriod = Anniversary \<rparr> \<rparr>"

text \<open>
  The mortgage of \<open>limitExample\<close> with its two additional payments of 50000 at payments 1
  and 3, a payment without an additional payment between them.
\<close>

definition gapExample :: MortgageParams where
  "gapExample =
     limitExample\<lparr> additionalPayments :=
       [\<lparr> ap_type = Recurring, amount = 50000, ap_startPayment = 1, endPayment = Some 3,
           frequency = Some 2, enabled = None \<rparr>] \<rparr>"

text \<open>The schedules that the engine returns on these two inputs.\<close>

definition boundaryExampleSchedule :: AmortizationSchedule where
  "boundaryExampleSchedule = projr (calculateAmortizationSchedule boundaryExample)"

definition gapExampleSchedule :: AmortizationSchedule where
  "gapExampleSchedule = projr (calculateAmortizationSchedule gapExample)"

section \<open>Properties\<close>

subsection \<open>Insurance calculator\<close>

text \<open>
  Claim C7. For a down-payment percentage \<open>p\<close> of at least 5 the insurance calculator
  returns: the premium rate is 0 from 20 percent on, 0.028 from 15, 0.031 from 10 and
  0.04 from 5; the loan amount is the price times \<open>1 - p / 100\<close>, the premium the loan
  amount times the premium rate, the surtax the premium times the surtax rate, and the
  total principal the sum of the three and the extra financing. A price of 625000 at
  10 percent gives a premium of 17437.50. No condition on the price, the extra
  financing or the surtax rate is needed.
\<close>

theorem insurance_calculator:
  assumes "5 \<le> p"
  shows "\<exists>r. calculateMortgageWithInsurance price p extra pst = Inr r
           \<and> ins_cmhcPremiumRate r =
               (if 20 \<le> p then 0 else if 15 \<le> p then 0.028 else if 10 \<le> p then 0.031 else 0.04)
           \<and> ins_mortgageAmount r = price * (1 - p / 100)
           \<and> ins_cmhcInsurance r = ins_mortgageAmount r * ins_cmhcPremiumRate r
           \<and> ins_cmhcPst r = ins_cmhcInsurance r * pst
           \<and> ins_totalPrincipal r
               = ins_mortgageAmount r + ins_cmhcInsurance r + ins_cmhcPst r + extra
           \<and> (price = 625000 \<and> p = 10 \<longrightarrow> ins_cmhcInsurance r = 17437.50)"
  using assms
  by (simp add: calculateMortgageWithInsurance_def getCMHCPremiumRate_def Let_def algebra_simps)

theorem insurance_calculator_witness:
  "(5::real) \<le> 10
   \<and> (\<exists>r. calculateMortgageWithInsurance 625000 10 0 0 = Inr r
          \<and> ins_cmhcPremiumRate r = 0.031 \<and> ins_cmhcInsurance r = 17437.50
          \<and> ins_totalPrincipal r = 579937.50)"
  using insurance_calculator [of 10 625000 0 0] by auto

lemma insurance_cases:
  "(\<exists>msg. calculateMortgageWithInsurance price p extra pst = Inl (Error msg) \<and> p < 5)
   \<or> (\<exists>r. calculateMortgageWithInsurance price p extra pst = Inr r \<and> 5 \<le> p)"
  by (auto simp: calculateMortgageWithInsurance_def getCMHCPremiumRate_def Let_def)

subsection \<open>Rate converter\<close>

lemma Math_pow_fraction:
  assumes "0 < x" "y \<noteq> of_int \<lfloor>y\<rfloor>"
  shows "Math_pow x y = Some (x powr y)"
  using assms by (simp add: Math_pow_def)

lemma two_over_paymentsPerYear_fraction:
  "(2::real) / of_int (getPaymentsPerYear f)
     \<noteq> of_int \<lfloor>(2::real) / of_int (getPaymentsPerYear f)\<rfloor>"
  by (cases f) simp_all

lemma getPeriodicRate_nonneg_rate:
  assumes "0 \<le> a"
  shows "getPeriodicRate a f = Some ((1 + a / 2) powr (2 / of_int (getPaymentsPerYear f)) - 1)"
proof -
  have pos: "0 < 1 + a / 2" using assms by simp
  show ?thesis
    by (simp add: getPeriodicRate_def Let_def
          Math_pow_fraction [OF pos two_over_paymentsPerYear_fraction])
qed

text \<open>
  Claim C8. The payments per year are 12 for monthly, 52 for weekly and 26 for bi-weekly
  and accelerated bi-weekly payments, and for an annual rate \<open>a\<close> that is not negative
  the periodic rate is \<open>(1 + a / 2)\<close> to the power \<open>2 / paymentsPerYear\<close>, minus 1.
\<close>

theorem periodic_rate:
  "getPaymentsPerYear Monthly = 12 \<and> getPaymentsPerYear Weekly = 52
   \<and> getPaymentsPerYear BiWeekly = 26 \<and> getPaymentsPerYear AcceleratedBiWeekly = 26
   \<and> (0 \<le> a \<longrightarrow>
        getPeriodicRate a f = Some ((1 + a / 2) powr (2 / of_int (getPaymentsPerYear f)) - 1))"
  by (simp add: getPeriodicRate_nonneg_rate)

theorem periodic_rate_witness:
  "(0::real) \<le> 0 \<and> getPeriodicRate 0 Monthly = Some 0 \<and> getPaymentsPerYear Monthly = 12"
  using periodic_rate [of 0 Monthly] by simp

subsection \<open>Failures of the engine\<close>

lemma paymentLoop_no_Error:
  "paymentLoop params term ti n r pay i st \<noteq> Inl (Error msg)"
proof (induction params "term" ti n r pay i st rule: paymentLoop.induct)
  case (1 params "term" ti n r pay i st)
  show ?case
    using 1
    by (subst paymentLoop.simps) (auto simp: Let_def split: option.splits)
qed

lemma termLoop_no_Error:
  "termLoop params T ti ts st \<noteq> Inl (Error msg)"
proof (induction ts arbitrary: ti st)
  case Nil
  then show ?case by simp
next
  case (Cons t ts)
  then show ?case
    by (auto simp: Let_def paymentLoop_no_Error split: sum.splits list.splits)
qed

lemma shadowPaymentLoop_no_Error:
  "shadowPaymentLoop e T r pay w \<noteq> Inl (Error msg)"
proof (induction e T r pay w rule: shadowPaymentLoop.induct)
  case (1 e T r pay b t n)
  show ?case
    using 1
    by (subst shadowPaymentLoop.simps) (auto simp: Let_def split: option.splits)
qed

lemma shadowTermLoop_no_Error:
  "shadowTermLoop params T ts w \<noteq> Inl (Error msg)"
proof (induction ts arbitrary: w)
  case Nil
  then show ?case by simp
next
  case (Cons t ts)
  obtain b tot n where w: "w = (b, tot, n)" by (cases w) auto
  show ?case
    using Cons
    by (auto simp: w Let_def shadowPaymentLoop_no_Error split: sum.splits list.splits)
qed

lemma interestWithoutAdditional_no_Error:
  "interestWithoutAdditional params \<noteq> Inl (Error msg)"
  by (auto simp: interestWithoutAdditional_def Let_def shadowTermLoop_no_Error split: sum.splits)

text \<open>
  Claim C10. The engine throws exactly when the list of renewal periods is empty or the
  down-payment percentage is below 5, and then it returns no schedule: the result is
  the error alone.
\<close>

theorem engine_fails_iff:
  "((\<exists>msg. calculateAmortizationSchedule params = Inl (Error msg))
      \<longleftrightarrow> (renewalPeriods params = [] \<or> downPaymentPercent params < 5))
   \<and> (renewalPeriods params = [] \<or> downPaymentPercent params < 5
        \<longrightarrow> (\<forall>s. calculateAmortizationSchedule params \<noteq> Inr s))"
proof (cases "renewalPeriods params = []")
  case True
  then show ?thesis by (simp add: calculateAmortizationSchedule_def)
next
  case False
  from insurance_cases [of "purchasePrice params" "downPaymentPercent params"
      "additionalFinancing params" "cmhcPstRate params"]
  show ?thesis
  proof (elim disjE exE conjE)
    fix msg
    assume "calculateMortgageWithInsurance (purchasePrice params) (downPaymentPercent params)
              (additionalFinancing params) (cmhcPstRate params) = Inl (Error msg)"
      and "downPaymentPercent params < 5"
    then show ?thesis using False by (simp add: calculateAmortizationSchedule_def)
  next
    fix r
    assume ins: "calculateMortgageWithInsurance (purchasePrice params) (downPaymentPercent params)
              (additionalFinancing params) (cmhcPstRate params) = Inr r"
      and dp: "5 \<le> downPaymentPercent params"
    have "calculateAmortizationSchedule params \<noteq> Inl (Error msg)" for msg
      using False ins
      by (auto simp: calculateAmortizationSchedule_def Let_def termLoop_no_Error
            interestWithoutAdditional_no_Error split: sum.splits if_splits)
    then show ?thesis using False dp by auto
  qed
qed

theorem engine_fails_iff_witness:
  "renewalPeriods noTermsExample = []
   \<and> (\<exists>msg. calculateAmortizationSchedule noTermsExample = Inl (Error msg))
   \<and> downPaymentPercent lowDownPaymentExample < 5
   \<and> (\<exists>msg. calculateAmortizationSchedule lowDownPaymentExample = Inl (Error msg))
   \<and> (\<forall>s. calculateAmortizationSchedule lowDownPaymentExample \<noteq> Inr s)"
proof -
  have a: "renewalPeriods noTermsExample = []"
    by (simp add: noTermsExample_def)
  have b: "downPaymentPercent lowDownPaymentExample < 5"
    by (simp add: lowDownPaymentExample_def)
  show ?thesis
    using a b engine_fails_iff [of noTermsExample] engine_fails_iff [of lowDownPaymentExample]
    by simp
qed

subsection \<open>One pass of the payment loop, and the loop\<close>

lemma paymentStep_payments:
  "st_payments (paymentStep params term ti r pay st)
     = st_payments st @ [newEntry params term ti r pay st]"
  by (simp add: newEntry_def paymentStep_def Let_def split: prod.splits)

lemma paymentStep_paymentNumber [simp]:
  "st_paymentNumber (paymentStep params term ti r pay st) = st_paymentNumber st + 1"
  by (simp add: paymentStep_def Let_def split: prod.splits)

lemma newEntry_fields:
  "pd_paymentNumber (newEntry params term ti r pay st) = st_paymentNumber st"
  "pd_interest (newEntry params term ti r pay st) = st_balance st * r"
  "pd_principal (newEntry params term ti r pay st) = min (pay - st_balance st * r) (st_balance st)"
  "pd_payment (newEntry params term ti r pay st)
     = pd_principal (newEntry params term ti r pay st) + pd_interest (newEntry params term ti r pay st)"
  "pd_additionalPayment (newEntry params term ti r pay st)
     = min (getAdditionalPaymentAmount (st_paymentNumber st) (additionalPayments params))
           (st_balance st - pd_principal (newEntry params term ti r pay st))"
  "pd_balance (newEntry params term ti r pay st)
     = max 0 (st_balance (paymentStep params term ti r pay st))"
  "pd_interestRate (newEntry params term ti r pay st) = annualRate term"
  "pd_termNumber (newEntry params term ti r pay st) = ti + 1"
  by (simp_all add: newEntry_def paymentStep_def Let_def split: prod.splits)

lemma paymentStep_balance:
  "st_balance (paymentStep params term ti r pay st)
     = st_balance st - pd_principal (newEntry params term ti r pay st)
         - pd_additionalPayment (newEntry params term ti r pay st)"
  by (simp add: newEntry_def paymentStep_def Let_def split: prod.splits)

lemma paymentStep_balance_nonneg:
  "0 \<le> st_balance (paymentStep params term ti r pay st)"
  unfolding paymentStep_balance newEntry_fields by (simp add: min_def)

text \<open>A property kept by every pass of the payment loop holds when the loop ends.\<close>

lemma paymentLoop_induct_rule:
  assumes run: "paymentLoop params term ti n r pay i st = Inr st'"
    and init: "Q i st"
    and step: "\<And>j s r' pay'. Q j s \<Longrightarrow> j < n \<Longrightarrow> st_balance s > 0.01
                 \<Longrightarrow> r = Some r' \<Longrightarrow> pay = Some pay'
                 \<Longrightarrow> Q (j + 1) (paymentStep params term ti r' pay' s)"
  shows "\<exists>j. i \<le> j \<and> Q j st' \<and> (st_balance st' \<le> 0.01 \<or> n \<le> j)"
  using run init step
proof (induction params "term" ti n r pay i st rule: paymentLoop.induct)
  case (1 params "term" ti n r pay i st)
  show ?case
  proof (cases "i < n \<and> st_balance st > 0.01")
    case False
    with "1.prems" have "st' = st"
      by (subst (asm) paymentLoop.simps) auto
    with False "1.prems"(2) show ?thesis
      by (intro exI [of _ i]) auto
  next
    case True
    with "1.prems"(1) obtain r' pay' where rp: "r = Some r'" "pay = Some pay'"
      by (subst (asm) paymentLoop.simps) (auto split: option.splits)
    let ?s = "paymentStep params term ti r' pay' st"
    have Q': "Q (i + 1) ?s"
      using "1.prems"(3) [OF "1.prems"(2) _ _ rp] True by simp
    show ?thesis
    proof (cases "st_balance ?s < 0.01")
      case True
      with \<open>i < n \<and> _\<close> "1.prems"(1) rp have "st' = ?s"
        by (subst (asm) paymentLoop.simps) (auto simp: Let_def)
      with True Q' show ?thesis
        by (intro exI [of _ "i + 1"]) auto
    next
      case False
      with True "1.prems"(1) rp
      have "paymentLoop params term ti n r pay (i + 1) ?s = Inr st'"
        by (subst (asm) paymentLoop.simps) (auto simp: Let_def)
      from "1.IH" [OF True rp refl False this Q' "1.prems"(3)]
      obtain j where "i + 1 \<le> j" "Q j st'" "st_balance st' \<le> 0.01 \<or> n \<le> j"
        by blast
      then show ?thesis by (intro exI [of _ j]) auto
    qed
  qed
qed

lemma termLoop_invariant:
  assumes run: "termLoop params T ti ts st = Inr st'"
    and init: "Q st"
    and step: "\<And>s term ti r pay. Q s \<Longrightarrow> st_balance s > 0.01
                 \<Longrightarrow> Q (paymentStep params term ti r pay s)"
  shows "Q st'"
  using run init
proof (induction ts arbitrary: ti st)
  case Nil
  then show ?case by simp
next
  case (Cons t ts)
  let ?n = "(case ts of [] \<Rightarrow> T | nextTerm # _ \<Rightarrow> startPayment nextTerm - 1) - startPayment t + 1"
  let ?r = "getPeriodicRate (annualRate t) (paymentFrequency params)"
  let ?pay = "calculatePayment (st_balance st) ?r (T - st_paymentNumber st + 1)"
  from Cons.prems(1) obtain s1 where
    inner: "paymentLoop params t ti ?n ?r ?pay 0 st = Inr s1"
    and rest: "st_balance s1 < 0.01 \<and> st' = s1 \<or> termLoop params T (ti + 1) ts s1 = Inr st'"
    by (auto simp: Let_def split: sum.splits if_splits)
  from paymentLoop_induct_rule [OF inner, where Q = "\<lambda>j s. Q s"] Cons.prems(2) step
  have "Q s1" by blast
  with rest Cons.IH show ?case by blast
qed

lemma ledgerChain_snoc:
  "ledgerChain b (es @ [e])
     \<longleftrightarrow> ledgerChain b es
         \<and> pd_payment e = pd_principal e + pd_interest e
         \<and> pd_balance e = max 0 (lastBalance b es - pd_principal e - pd_additionalPayment e)"
  by (induction es arbitrary: b) (auto simp: lastBalance_def)

lemma ledgerChain_nth:
  assumes "ledgerChain b es" "i < length es"
  shows "pd_payment (es ! i) = pd_principal (es ! i) + pd_interest (es ! i)
         \<and> pd_balance (es ! i)
             = max 0 ((if i = 0 then b else pd_balance (es ! (i - 1)))
                      - pd_principal (es ! i) - pd_additionalPayment (es ! i))"
  using assms
proof (induction es arbitrary: b i)
  case Nil
  then show ?case by simp
next
  case (Cons e es)
  show ?case
  proof (cases i)
    case 0
    with Cons.prems show ?thesis by simp
  next
    case (Suc k)
    with Cons.prems have "ledgerChain (pd_balance e) es" "k < length es" by auto
    from Cons.IH [OF this] Suc show ?thesis by (cases k) simp_all
  qed
qed

lemma ledgerInvariant_step:
  assumes "ledgerInvariant b st"
  shows "ledgerInvariant b (paymentStep params term ti r pay st)"
proof -
  let ?s = "paymentStep params term ti r pay st"
  let ?e = "newEntry params term ti r pay st"
  have nn: "0 \<le> st_balance ?s" by (rule paymentStep_balance_nonneg)
  have bal: "pd_balance ?e = st_balance ?s"
    using nn by (simp add: newEntry_fields)
  have "pd_balance ?e = max 0 (st_balance st - pd_principal ?e - pd_additionalPayment ?e)"
    using nn by (simp add: newEntry_fields(6) paymentStep_balance)
  with assms bal show ?thesis
    by (simp add: ledgerInvariant_def paymentStep_payments ledgerChain_snoc newEntry_fields(4)
          lastBalance_def)
qed

lemma termLoop_ledgerInvariant:
  assumes "termLoop params T ti ts st = Inr st'" "ledgerInvariant b st"
  shows "ledgerInvariant b st'"
  using termLoop_invariant [OF assms(1), where Q = "ledgerInvariant b"] assms(2)
    ledgerInvariant_step by blast

lemma initialState_ledgerInvariant:
  "ledgerInvariant (principal params) (initialState params)"
  by (simp add: ledgerInvariant_def initialState_def lastBalance_def)

lemma engine_result:
  assumes "calculateAmortizationSchedule params = Inr s"
  shows "\<exists>st. termLoop params (getPaymentCount (amortizationYears params) (paymentFrequency params))
                 0 (sort_key startPayment (renewalPeriods params)) (initialState params) = Inr st
              \<and> sch_payments s = st_payments st
              \<and> sch_totalInterest s = st_totalInterestPaid st
              \<and> sm_totalInterestPaid (sch_summary s) = st_totalInterestPaid st
              \<and> sm_totalAdditionalPayments (sch_summary s) = st_totalAdditionalPayments st"
  using assms
  by (auto simp: calculateAmortizationSchedule_def Let_def split: if_splits sum.splits)

subsection \<open>Runs of the engine on the example inputs\<close>

text \<open>
  The definitions that a run on a concrete input unfolds. They are used with the weak
  congruence rule for \<open>let\<close>, so that a bound value is computed before it is used.
\<close>

lemmas engine_eval =
  calculateAmortizationSchedule_def calculateMortgageWithInsurance_def getCMHCPremiumRate_def
  getPaymentCount_def Math_round_def Math_pow_def getPeriodicRate_def calculatePayment_def
  initialState_def paymentLoop.simps paymentStep_def checkPrepaymentLimit_def
  getAdditionalPaymentAmount_def additionalPaymentStep_def getPeriodIdentifier_def
  getDaysForPayment_def setDate_def dayNumber_def dateOfDayNumber_def toString_def
  digitsOf.simps interestWithoutAdditional_def shadowPaymentLoop.simps Let_def
  doubleTimes_def doubleDivide_def roundToDouble_def roundHalfEven_def binaryExponent_def
  bitLength.simps

lemma projr_run:
  assumes "\<exists>s. f = Inr s \<and> P s"
  shows "f = Inr (projr f) \<and> P (projr f)"
  using assms by auto

lemma map_eq_nth:
  assumes "map f xs = ys" "i < length ys"
  shows "f (xs ! i) = ys ! i"
  using assms by auto

lemma map_eq_length:
  assumes "map f xs = ys"
  shows "length xs = length ys"
  using assms by auto

lemma limitExample_run:
  "\<exists>s. calculateAmortizationSchedule limitExample = Inr s
        \<and> map pd_exceedsLimit (sch_payments s)
            = [None, Some True, None, None, None, None, None, None, None, None]
        \<and> map pd_additionalPayment (sch_payments s) = [50000, 50000, 0, 0, 0, 0, 0, 0, 0, 0]
        \<and> map pd_balance (sch_payments s)
            = [465625, 368750, 321875, 275000, 228125, 181250, 134375, 87500, 40625, 0]
        \<and> sm_prepaymentLimitViolations (sch_summary s) = Some 1
        \<and> sm_totalAdditionalPayments (sch_summary s) = 100000"
  by (simp add: limitExample_def engine_eval cong: let_weak_cong)

lemma limitExample_schedule:
  shows "calculateAmortizationSchedule limitExample = Inr limitExampleSchedule"
    and "map pd_exceedsLimit (sch_payments limitExampleSchedule)
            = [None, Some True, None, None, None, None, None, None, None, None]"
    and "map pd_additionalPayment (sch_payments limitExampleSchedule)
            = [50000, 50000, 0, 0, 0, 0, 0, 0, 0, 0]"
    and "map pd_balance (sch_payments limitExampleSchedule)
            = [465625, 368750, 321875, 275000, 228125, 181250, 134375, 87500, 40625, 0]"
    and "sm_prepaymentLimitViolations (sch_summary limitExampleSchedule) = Some 1"
    and "sm_totalAdditionalPayments (sch_summary limitExampleSchedule) = 100000"
proof -
  note r1 = projr_run [OF limitExample_run, folded limitExampleSchedule_def]
  note r2 = r1 [THEN conjunct2]
  note r3 = r2 [THEN conjunct2]
  note r4 = r3 [THEN conjunct2]
  note r5 = r4 [THEN conjunct2]
  show "calculateAmortizationSchedule limitExample = Inr limitExampleSchedule"
    by (rule r1 [THEN conjunct1])
  show "map pd_exceedsLimit (sch_payments limitExampleSchedule)
            = [None, Some True, None, None, None, None, None, None, None, None]"
    by (rule r2 [THEN conjunct1])
  show "map pd_additionalPayment (sch_payments limitExampleSchedule)
            = [50000, 50000, 0, 0, 0, 0, 0, 0, 0, 0]"
    by (rule r3 [THEN conjunct1])
  show "map pd_balance (sch_payments limitExampleSchedule)
            = [465625, 368750, 321875, 275000, 228125, 181250, 134375, 87500, 40625, 0]"
    by (rule r4 [THEN conjunct1])
  show "sm_prepaymentLimitViolations (sch_summary limitExampleSchedule) = Some 1"
    by (rule r5 [THEN conjunct1])
  show "sm_totalAdditionalPayments (sch_summary limitExampleSchedule) = 100000"
    by (rule r5 [THEN conjunct2])
qed

lemma mismatchExample_run:
  "\<exists>s. calculateAmortizationSchedule mismatchExample = Inr s
        \<and> map pd_balance (sch_payments s)
            = [465625, 368750, 321875, 275000, 228125, 181250, 134375, 87500, 40625, 0]
        \<and> map pd_principal (sch_payments s)
            = [46875, 46875, 46875, 46875, 46875, 46875, 46875, 46875, 46875, 40625]
        \<and> map pd_additionalPayment (sch_payments s) = [50000, 50000, 0, 0, 0, 0, 0, 0, 0, 0]"
  by (simp add: mismatchExample_def limitExample_def engine_eval cong: let_weak_cong)

lemma mismatchExample_schedule:
  shows "calculateAmortizationSchedule mismatchExample = Inr mismatchExampleSchedule"
    and "map pd_balance (sch_payments mismatchExampleSchedule)
            = [465625, 368750, 321875, 275000, 228125, 181250, 134375, 87500, 40625, 0]"
    and "map pd_principal (sch_payments mismatchExampleSchedule)
            = [46875, 46875, 46875, 46875, 46875, 46875, 46875, 46875, 46875, 40625]"
    and "map pd_additionalPayment (sch_payments mismatchExampleSchedule)
            = [50000, 50000, 0, 0, 0, 0, 0, 0, 0, 0]"
proof -
  note r1 = projr_run [OF mismatchExample_run, folded mismatchExampleSchedule_def]
  note r2 = r1 [THEN conjunct2]
  note r3 = r2 [THEN conjunct2]
  show "calculateAmortizationSchedule mismatchExample = Inr mismatchExampleSchedule"
    by (rule r1 [THEN conjunct1])
  show "map pd_balance (sch_payments mismatchExampleSchedule)
            = [465625, 368750, 321875, 275000, 228125, 181250, 134375, 87500, 40625, 0]"
    by (rule r2 [THEN conjunct1])
  show "map pd_principal (sch_payments mismatchExampleSchedule)
            = [46875, 46875, 46875, 46875, 46875, 46875, 46875, 46875, 46875, 40625]"
    by (rule r3 [THEN conjunct1])
  show "map pd_additionalPayment (sch_payments mismatchExampleSchedule)
            = [50000, 50000, 0, 0, 0, 0, 0, 0, 0, 0]"
    by (rule r3 [THEN conjunct2])
qed

subsection \<open>The ledger and its starting balance\<close>

lemma engine_ledgerChain:
  assumes "calculateAmortizationSchedule params = Inr s"
  shows "ledgerChain (principal params) (sch_payments s)"
proof -
  from engine_result [OF assms] obtain st where
    run: "termLoop params (getPaymentCount (amortizationYears params) (paymentFrequency params))
            0 (sort_key startPayment (renewalPeriods params)) (initialState params) = Inr st"
    and led: "sch_payments s = st_payments st"
    by blast
  from termLoop_ledgerInvariant [OF run initialState_ledgerInvariant]
  show ?thesis
    by (simp add: ledgerInvariant_def led)
qed

lemma ledger_first:
  assumes "calculateAmortizationSchedule params = Inr s" "sch_payments s \<noteq> []"
  shows "pd_balance (hd (sch_payments s))
           = max 0 (principal params - pd_principal (hd (sch_payments s))
                    - pd_additionalPayment (hd (sch_payments s)))"
  using ledgerChain_nth [OF engine_ledgerChain [OF assms(1)], of 0] assms(2)
  by (simp add: hd_conv_nth)

text \<open>
  Claim C2. In every ledger that the engine returns, the payment of each entry is its
  principal portion plus its interest portion, and the balance of each entry is the
  balance of the entry before it (the \<open>principal\<close> field for the first entry) minus its
  principal portion minus its extra payment, floored at zero. Over the reals the
  equalities are exact.
\<close>

theorem ledger_invariants:
  assumes "calculateAmortizationSchedule params = Inr s"
  shows "\<forall>i < length (sch_payments s).
           pd_payment (sch_payments s ! i)
             = pd_principal (sch_payments s ! i) + pd_interest (sch_payments s ! i)
           \<and> pd_balance (sch_payments s ! i)
               = max 0 ((if i = 0 then principal params else pd_balance (sch_payments s ! (i - 1)))
                        - pd_principal (sch_payments s ! i)
                        - pd_additionalPayment (sch_payments s ! i))"
  using ledgerChain_nth [OF engine_ledgerChain [OF assms]] by blast

theorem ledger_invariants_witness:
  "calculateAmortizationSchedule limitExample = Inr limitExampleSchedule
   \<and> pd_payment (sch_payments limitExampleSchedule ! 1)
       = pd_principal (sch_payments limitExampleSchedule ! 1)
         + pd_interest (sch_payments limitExampleSchedule ! 1)
   \<and> pd_balance (sch_payments limitExampleSchedule ! 1)
       = max 0 (pd_balance (sch_payments limitExampleSchedule ! 0)
                - pd_principal (sch_payments limitExampleSchedule ! 1)
                - pd_additionalPayment (sch_payments limitExampleSchedule ! 1))
   \<and> pd_balance (sch_payments limitExampleSchedule ! 1) = 368750"
proof -
  have len: "1 < length (sch_payments limitExampleSchedule)"
    using map_eq_length [OF limitExample_schedule(4)] by simp
  have b1: "pd_balance (sch_payments limitExampleSchedule ! 1) = 368750"
    using map_eq_nth [OF limitExample_schedule(4), of 1] by simp
  from ledger_invariants [OF limitExample_schedule(1), rule_format, OF len]
  have "pd_payment (sch_payments limitExampleSchedule ! 1)
       = pd_principal (sch_payments limitExampleSchedule ! 1)
         + pd_interest (sch_payments limitExampleSchedule ! 1)
   \<and> pd_balance (sch_payments limitExampleSchedule ! 1)
       = max 0 (pd_balance (sch_payments limitExampleSchedule ! 0)
                - pd_principal (sch_payments limitExampleSchedule ! 1)
                - pd_additionalPayment (sch_payments limitExampleSchedule ! 1))"
    by simp
  with limitExample_schedule(1) b1 show ?thesis by simp
qed

text \<open>
  Claim C1 says that the simulation starts from the total principal that the insurance
  calculator computes. The engine starts from the \<open>principal\<close> field of its parameters
  and computes the insurance figures for the summary alone. On \<open>mismatchExample\<close> the
  engine returns a schedule, its starting balance is 562500, the first entry's balance,
  principal portion and extra payment add up to 562500, and the insurance calculator's
  total is 579937.50.
\<close>

theorem starting_balance_counterexample:
  "calculateAmortizationSchedule mismatchExample = Inr mismatchExampleSchedule
   \<and> st_balance (initialState mismatchExample) = 562500
   \<and> pd_balance (hd (sch_payments mismatchExampleSchedule))
       + pd_principal (hd (sch_payments mismatchExampleSchedule))
       + pd_additionalPayment (hd (sch_payments mismatchExampleSchedule))
       = 562500
   \<and> map_sum id ins_totalPrincipal (calculateMortgageWithInsurance
         (purchasePrice mismatchExample) (downPaymentPercent mismatchExample)
         (additionalFinancing mismatchExample) (cmhcPstRate mismatchExample)) = Inr 579937.50
   \<and> Inr (st_balance (initialState mismatchExample))
       \<noteq> map_sum id ins_totalPrincipal (calculateMortgageWithInsurance
           (purchasePrice mismatchExample) (downPaymentPercent mismatchExample)
           (additionalFinancing mismatchExample) (cmhcPstRate mismatchExample))"
proof -
  have ne: "sch_payments mismatchExampleSchedule \<noteq> []"
    using map_eq_length [OF mismatchExample_schedule(2)] by auto
  have h: "pd_balance (hd (sch_payments mismatchExampleSchedule)) = 465625"
    "pd_principal (hd (sch_payments mismatchExampleSchedule)) = 46875"
    "pd_additionalPayment (hd (sch_payments mismatchExampleSchedule)) = 50000"
    using map_eq_nth [OF mismatchExample_schedule(2), of 0]
      map_eq_nth [OF mismatchExample_schedule(3), of 0]
      map_eq_nth [OF mismatchExample_schedule(4), of 0] ne
    by (simp_all add: hd_conv_nth)
  have ins: "map_sum id ins_totalPrincipal (calculateMortgageWithInsurance
         (purchasePrice mismatchExample) (downPaymentPercent mismatchExample)
         (additionalFinancing mismatchExample) (cmhcPstRate mismatchExample)) = Inr 579937.50"
    by (simp add: mismatchExample_def limitExample_def calculateMortgageWithInsurance_def
          getCMHCPremiumRate_def Let_def)
  have st: "st_balance (initialState mismatchExample) = 562500"
    by (simp add: initialState_def mismatchExample_def limitExample_def)
  show ?thesis
    unfolding ins st h using mismatchExample_schedule(1) by simp
qed

text \<open>
  Claim C1, amended. For every parameter set that the engine accepts, the simulation
  starts from the \<open>principal\<close> field: it is the balance before the first payment, the
  original principal of the summary and the predecessor of the first ledger entry. When
  the caller has set that field to the total principal of the insurance calculator, as
  \<^verbatim>\<open>handleCalculate\<close> in \<^verbatim>\<open>App.tsx\<close> does, the starting balance is the loan amount plus the
  premium plus the surtax plus the extra financing.
\<close>

theorem starting_balance:
  assumes "calculateAmortizationSchedule params = Inr s"
  shows "st_balance (initialState params) = principal params
         \<and> sm_originalPrincipal (sch_summary s) = principal params
         \<and> (sch_payments s \<noteq> [] \<longrightarrow>
              pd_balance (hd (sch_payments s))
                = max 0 (principal params - pd_principal (hd (sch_payments s))
                         - pd_additionalPayment (hd (sch_payments s))))
         \<and> (\<forall>ins. calculateMortgageWithInsurance (purchasePrice params) (downPaymentPercent params)
                     (additionalFinancing params) (cmhcPstRate params) = Inr ins
                   \<and> principal params = ins_totalPrincipal ins
               \<longrightarrow> st_balance (initialState params)
                     = ins_mortgageAmount ins + ins_cmhcInsurance ins + ins_cmhcPst ins
                       + ins_additionalFinancing ins)"
proof -
  have a: "st_balance (initialState params) = principal params"
    by (simp add: initialState_def)
  have b: "sm_originalPrincipal (sch_summary s) = principal params"
    using assms
    by (auto simp: calculateAmortizationSchedule_def Let_def split: if_splits sum.splits)
  have d: "ins_totalPrincipal ins
             = ins_mortgageAmount ins + ins_cmhcInsurance ins + ins_cmhcPst ins
               + ins_additionalFinancing ins"
    if "calculateMortgageWithInsurance price p extra pst = Inr ins" for ins price p extra pst
    using that
    by (auto simp: calculateMortgageWithInsurance_def Let_def split: sum.splits)
  from a b ledger_first [OF assms] d show ?thesis by auto
qed

theorem starting_balance_witness:
  "calculateAmortizationSchedule limitExample = Inr limitExampleSchedule
   \<and> st_balance (initialState limitExample) = 562500
   \<and> sm_originalPrincipal (sch_summary limitExampleSchedule) = 562500
   \<and> pd_balance (hd (sch_payments limitExampleSchedule))
       = max 0 (562500 - pd_principal (hd (sch_payments limitExampleSchedule))
                - pd_additionalPayment (hd (sch_payments limitExampleSchedule)))
   \<and> map_sum id ins_totalPrincipal (calculateMortgageWithInsurance
         (purchasePrice limitExample) (downPaymentPercent limitExample)
         (additionalFinancing limitExample) (cmhcPstRate limitExample)) = Inr 562500"
proof -
  have ne: "sch_payments limitExampleSchedule \<noteq> []"
    using map_eq_length [OF limitExample_schedule(4)] by auto
  have p: "principal limitExample = 562500"
    by (simp add: limitExample_def)
  have ins: "map_sum id ins_totalPrincipal (calculateMortgageWithInsurance
         (purchasePrice limitExample) (downPaymentPercent limitExample)
         (additionalFinancing limitExample) (cmhcPstRate limitExample)) = Inr 562500"
    by (simp add: limitExample_def calculateMortgageWithInsurance_def
          getCMHCPremiumRate_def Let_def)
  from starting_balance [OF limitExample_schedule(1)] ne
  have "st_balance (initialState limitExample) = principal limitExample
        \<and> sm_originalPrincipal (sch_summary limitExampleSchedule) = principal limitExample
        \<and> pd_balance (hd (sch_payments limitExampleSchedule))
            = max 0 (principal limitExample - pd_principal (hd (sch_payments limitExampleSchedule))
                - pd_additionalPayment (hd (sch_payments limitExampleSchedule)))"
    by simp
  then show ?thesis
    unfolding p ins using limitExample_schedule(1) by simp
qed

subsection \<open>The ledger is a sequence of term blocks\<close>

lemma termBlocks_Nil:
  assumes "b \<le> 0.01"
  shows "termBlocks params totalCount termNo ts b idx []"
  using assms
proof (induction ts arbitrary: termNo)
  case Nil
  then show ?case by simp
next
  case (Cons t ts)
  then show ?case by (simp add: lastBalance_def)
qed

lemma newEntry_balance:
  "pd_balance (newEntry params term ti r pay st) = st_balance (paymentStep params term ti r pay st)"
  using paymentStep_balance_nonneg [of params "term" ti r pay st]
  by (simp add: newEntry_fields)

lemma paymentLoop_block:
  assumes "paymentLoop params term ti n r pay i st = Inr st'"
  shows "\<exists>blk. st_payments st' = st_payments st @ blk
           \<and> int (length blk) \<le> max 0 (n - i)
           \<and> st_paymentNumber st' = st_paymentNumber st + int (length blk)
           \<and> st_balance st' = lastBalance (st_balance st) blk
           \<and> (int (length blk) < max 0 (n - i) \<longrightarrow> st_balance st' \<le> 0.01)
           \<and> (blk \<noteq> [] \<longrightarrow>
                (\<exists>r' pay'. r = Some r' \<and> pay = Some pay'
                   \<and> levelBlock r' pay' (annualRate term) (ti + 1)
                        (st_balance st) (st_paymentNumber st) blk))"
  using assms
proof (induction params "term" ti n r pay i st rule: paymentLoop.induct)
  case (1 params "term" ti n r pay i st)
  show ?case
  proof (cases "i < n \<and> st_balance st > 0.01")
    case False
    with "1.prems" have "st' = st"
      by (subst (asm) paymentLoop.simps) auto
    with False show ?thesis
      by (intro exI [of _ "[]"]) (auto simp: lastBalance_def)
  next
    case True
    with "1.prems" obtain r' pay' where rp: "r = Some r'" "pay = Some pay'"
      by (subst (asm) paymentLoop.simps) (auto split: option.splits)
    let ?s = "paymentStep params term ti r' pay' st"
    let ?e = "newEntry params term ti r' pay' st"
    have e_ok: "levelBlock r' pay' (annualRate term) (ti + 1) (st_balance st) (st_paymentNumber st)
                  (?e # blk)
                \<longleftrightarrow> levelBlock r' pay' (annualRate term) (ti + 1) (st_balance ?s)
                      (st_paymentNumber st + 1) blk" for blk
      using True by (simp add: newEntry_fields(1-5,7,8) newEntry_balance)
    show ?thesis
    proof (cases "st_balance ?s < 0.01")
      case brk: True
      with True "1.prems" rp have st': "st' = ?s"
        by (subst (asm) paymentLoop.simps) (auto simp: Let_def)
      show ?thesis
        using True brk rp e_ok [of "[]"]
        by (intro exI [of _ "[?e]"])
           (simp add: st' paymentStep_payments lastBalance_def newEntry_balance)
    next
      case False
      with True "1.prems" rp
      have "paymentLoop params term ti n r pay (i + 1) ?s = Inr st'"
        by (subst (asm) paymentLoop.simps) (auto simp: Let_def)
      from "1.IH" [OF True rp refl False this]
      obtain blk where blk:
        "st_payments st' = st_payments ?s @ blk"
        "int (length blk) \<le> max 0 (n - (i + 1))"
        "st_paymentNumber st' = st_paymentNumber ?s + int (length blk)"
        "st_balance st' = lastBalance (st_balance ?s) blk"
        "int (length blk) < max 0 (n - (i + 1)) \<longrightarrow> st_balance st' \<le> 0.01"
        "blk \<noteq> [] \<longrightarrow>
           (\<exists>r' pay'. r = Some r' \<and> pay = Some pay'
              \<and> levelBlock r' pay' (annualRate term) (ti + 1)
                   (st_balance ?s) (st_paymentNumber ?s) blk)"
        by blast
      have lev: "levelBlock r' pay' (annualRate term) (ti + 1) (st_balance ?s)
                   (st_paymentNumber st + 1) blk"
        using blk(6) rp by (cases blk) auto
      have lb: "lastBalance (st_balance st) (?e # blk) = lastBalance (st_balance ?s) blk"
        by (simp add: lastBalance_def newEntry_balance)
      show ?thesis
        using True blk(1-5) rp lev e_ok [of blk] lb
        by (intro exI [of _ "?e # blk"]) (auto simp: paymentStep_payments)
    qed
  qed
qed

lemma termLoop_blocks:
  assumes "termLoop params T ti ts st = Inr st'"
  shows "\<exists>es. st_payments st' = st_payments st @ es
           \<and> termBlocks params T (ti + 1) ts (st_balance st) (st_paymentNumber st) es"
  using assms
proof (induction ts arbitrary: ti st)
  case Nil
  then show ?case by simp
next
  case (Cons t ts)
  let ?n = "(case ts of [] \<Rightarrow> T | nextTerm # _ \<Rightarrow> startPayment nextTerm - 1) - startPayment t + 1"
  let ?r = "getPeriodicRate (annualRate t) (paymentFrequency params)"
  let ?pay = "calculatePayment (st_balance st) ?r (T - st_paymentNumber st + 1)"
  from Cons.prems obtain s1 where
    inner: "paymentLoop params t ti ?n ?r ?pay 0 st = Inr s1"
    and rest: "st_balance s1 < 0.01 \<and> st' = s1 \<or> termLoop params T (ti + 1) ts s1 = Inr st'"
    by (auto simp: Let_def split: sum.splits if_splits)
  from paymentLoop_block [OF inner] obtain blk where blk:
    "st_payments s1 = st_payments st @ blk"
    "int (length blk) \<le> max 0 (?n - 0)"
    "st_paymentNumber s1 = st_paymentNumber st + int (length blk)"
    "st_balance s1 = lastBalance (st_balance st) blk"
    "int (length blk) < max 0 (?n - 0) \<longrightarrow> st_balance s1 \<le> 0.01"
    "blk \<noteq> [] \<longrightarrow>
       (\<exists>r' pay'. ?r = Some r' \<and> ?pay = Some pay'
          \<and> levelBlock r' pay' (annualRate t) (ti + 1) (st_balance st) (st_paymentNumber st) blk)"
    by blast
  have "\<exists>more. st_payments st' = st_payments s1 @ more
          \<and> termBlocks params T (ti + 1 + 1) ts (st_balance s1) (st_paymentNumber s1) more"
    using rest
  proof
    assume "st_balance s1 < 0.01 \<and> st' = s1"
    then show ?thesis
      using termBlocks_Nil [of "st_balance s1" params T "ti + 1 + 1" ts "st_paymentNumber s1"]
      by (intro exI [of _ "[]"]) simp
  next
    assume "termLoop params T (ti + 1) ts s1 = Inr st'"
    from Cons.IH [OF this] show ?thesis .
  qed
  then obtain more where more:
    "st_payments st' = st_payments s1 @ more"
    "termBlocks params T (ti + 1 + 1) ts (st_balance s1) (st_paymentNumber s1) more"
    by blast
  have "termBlocks params T (ti + 1) (t # ts) (st_balance st) (st_paymentNumber st) (blk @ more)"
    unfolding termBlocks.simps
    using blk(2,5,6) more(2) unfolding blk(3,4)
    by (intro exI [of _ blk] exI [of _ more]) auto
  with blk(1) more(1) show ?case by auto
qed

subsection \<open>Payment sizer and the payment of each term\<close>

lemma Math_pow_of_int:
  assumes "x \<noteq> 0"
  shows "Math_pow x (of_int n) = Some (x powi n)"
  using assms by (simp add: Math_pow_def)

lemma calculatePayment_straight_line:
  assumes "n \<noteq> 0"
  shows "calculatePayment b (Some 0) n = Some (b / of_int n)"
  using assms by (simp add: calculatePayment_def)

lemma calculatePayment_annuity:
  assumes "0 < r" "0 < n"
  shows "calculatePayment b (Some r) n
           = Some (b * r * (1 + r) ^ nat n / ((1 + r) ^ nat n - 1))"
proof -
  have x: "1 + r \<noteq> 0" "1 < 1 + r" using assms(1) by simp_all
  have pw: "(1 + r) powi n = (1 + r) ^ nat n"
    using assms(2) by (simp add: power_int_nonneg_exp)
  have "1 < (1 + r) ^ nat n"
    using x(2) assms(2) by simp
  then have ne: "(1 + r) ^ nat n - 1 \<noteq> 0" by simp
  show ?thesis
    using assms(1) ne
    by (simp add: calculatePayment_def Math_pow_of_int [OF x(1)] pw mult.assoc)
qed

lemma engine_termBlocks:
  assumes "calculateAmortizationSchedule params = Inr s"
  shows "termBlocks params (getPaymentCount (amortizationYears params) (paymentFrequency params))
           1 (sort_key startPayment (renewalPeriods params)) (principal params) 1 (sch_payments s)"
proof -
  from engine_result [OF assms] obtain st where
    run: "termLoop params (getPaymentCount (amortizationYears params) (paymentFrequency params))
            0 (sort_key startPayment (renewalPeriods params)) (initialState params) = Inr st"
    and led: "sch_payments s = st_payments st"
    by blast
  from termLoop_blocks [OF run] show ?thesis
    by (simp add: led initialState_def)
qed

lemma second_term_entry:
  assumes tb: "termBlocks params 300 1 [t1, t2] b 1 es"
    and starts: "startPayment t1 = 1" "startPayment t2 = 61"
    and len: "61 \<le> length es"
  shows "pd_paymentNumber (es ! 60) = 61 \<and> pd_termNumber (es ! 60) = 2
         \<and> (\<exists>rate levelPayment.
               getPeriodicRate (annualRate t2) (paymentFrequency params) = Some rate
               \<and> calculatePayment (pd_balance (es ! 59)) (Some rate) 240 = Some levelPayment
               \<and> pd_interest (es ! 60) = pd_balance (es ! 59) * rate
               \<and> pd_principal (es ! 60)
                   = min (levelPayment - pd_balance (es ! 59) * rate) (pd_balance (es ! 59))
               \<and> pd_payment (es ! 60) = pd_principal (es ! 60) + pd_interest (es ! 60))"
proof -
  from tb starts obtain blk1 more where b1:
    "es = blk1 @ more"
    "int (length blk1) \<le> 60"
    "int (length blk1) < 60 \<longrightarrow> lastBalance b blk1 \<le> 0.01"
    "termBlocks params 300 2 [t2] (lastBalance b blk1) (1 + int (length blk1)) more"
    by auto
  from b1(4) starts obtain blk2 where b2:
    "more = blk2"
    "blk2 \<noteq> [] \<longrightarrow>
       (\<exists>rate levelPayment.
          getPeriodicRate (annualRate t2) (paymentFrequency params) = Some rate
          \<and> calculatePayment (lastBalance b blk1) (Some rate)
               (300 - (1 + int (length blk1)) + 1) = Some levelPayment
          \<and> levelBlock rate levelPayment (annualRate t2) 2 (lastBalance b blk1)
               (1 + int (length blk1)) blk2)"
    by auto
  from len b1(1,2) b2(1) obtain e rest where blk2: "blk2 = e # rest"
    by (cases blk2) auto
  with b2(2) obtain rate levelPayment where sized:
    "getPeriodicRate (annualRate t2) (paymentFrequency params) = Some rate"
    "calculatePayment (lastBalance b blk1) (Some rate) (300 - (1 + int (length blk1)) + 1)
       = Some levelPayment"
    "levelBlock rate levelPayment (annualRate t2) 2 (lastBalance b blk1)
       (1 + int (length blk1)) (e # rest)"
    by auto
  from sized(3) have pos: "0.01 < lastBalance b blk1" by simp
  with b1(2,3) have l1: "length blk1 = 60" by auto
  then have ne: "blk1 \<noteq> []" by auto
  have e60: "es ! 60 = e"
    using l1 by (simp add: b1(1) b2(1) blk2 nth_append)
  have e59: "es ! 59 = last blk1"
    using l1 ne by (simp add: b1(1) nth_append last_conv_nth)
  have lb: "lastBalance b blk1 = pd_balance (es ! 59)"
    using ne by (simp add: lastBalance_def e59)
  from sized(3) have fields:
    "pd_paymentNumber e = 61" "pd_termNumber e = 2"
    "pd_interest e = pd_balance (es ! 59) * rate"
    "pd_principal e = min (levelPayment - pd_balance (es ! 59) * rate) (pd_balance (es ! 59))"
    "pd_payment e = pd_principal e + pd_interest e"
    by (simp_all add: l1 lb)
  from sized(1,2) fields show ?thesis
    unfolding e60 lb by (simp add: l1)
qed

lemma rate_zero: "getPeriodicRate 0 f = Some 0"
  using getPeriodicRate_nonneg_rate [of 0 f] by simp

lemma renewalExample_run:
  "\<exists>s. calculateAmortizationSchedule renewalExample = Inr s
        \<and> length (sch_payments s) = 61
        \<and> pd_balance (sch_payments s ! 59) = 320000"
  by (simp add: renewalExample_def engine_eval cong: let_weak_cong)

lemma renewalExample_schedule:
  shows "calculateAmortizationSchedule renewalExample = Inr renewalExampleSchedule"
    and "length (sch_payments renewalExampleSchedule) = 61"
    and "pd_balance (sch_payments renewalExampleSchedule ! 59) = 320000"
proof -
  note r1 = projr_run [OF renewalExample_run, folded renewalExampleSchedule_def]
  note r2 = r1 [THEN conjunct2]
  show "calculateAmortizationSchedule renewalExample = Inr renewalExampleSchedule"
    by (rule r1 [THEN conjunct1])
  show "length (sch_payments renewalExampleSchedule) = 61"
    by (rule r2 [THEN conjunct1])
  show "pd_balance (sch_payments renewalExampleSchedule ! 59) = 320000"
    by (rule r2 [THEN conjunct2])
qed

text \<open>
  Claim C4. The payment sizer returns the balance over the remaining count at rate 0 and
  the annuity value \<open>b * r * (1 + r) ^ n / ((1 + r) ^ n - 1)\<close> at a rate above 0. In every
  ledger that the engine returns, the entries of each term are a block whose level payment
  the sizer computed from the balance at the entry to the term and the payments remaining
  to the end of the amortization (\<open>termBlocks\<close>). For 25 years of monthly payments and
  sorted terms starting at payments 1 and 61, a ledger that reaches payment 61 has there
  the first entry of term 2, sized from the balance of entry 60 and 240 remaining payments.
\<close>

theorem payment_sizing:
  "(n \<noteq> 0 \<longrightarrow> calculatePayment b (Some 0) n = Some (b / of_int n))
   \<and> (0 < r \<and> 0 < n \<longrightarrow>
        calculatePayment b (Some r) n = Some (b * r * (1 + r) ^ nat n / ((1 + r) ^ nat n - 1)))
   \<and> (calculateAmortizationSchedule params = Inr s \<longrightarrow>
        termBlocks params (getPaymentCount (amortizationYears params) (paymentFrequency params))
          1 (sort_key startPayment (renewalPeriods params)) (principal params) 1 (sch_payments s))
   \<and> (calculateAmortizationSchedule params = Inr s
        \<and> amortizationYears params = 25 \<and> paymentFrequency params = Monthly
        \<and> sort_key startPayment (renewalPeriods params) = [t1, t2]
        \<and> startPayment t1 = 1 \<and> startPayment t2 = 61
        \<and> 61 \<le> length (sch_payments s)
      \<longrightarrow> pd_paymentNumber (sch_payments s ! 60) = 61
          \<and> pd_termNumber (sch_payments s ! 60) = 2
          \<and> (\<exists>rate levelPayment.
                getPeriodicRate (annualRate t2) Monthly = Some rate
                \<and> calculatePayment (pd_balance (sch_payments s ! 59)) (Some rate) 240
                    = Some levelPayment
                \<and> pd_interest (sch_payments s ! 60) = pd_balance (sch_payments s ! 59) * rate
                \<and> pd_principal (sch_payments s ! 60)
                    = min (levelPayment - pd_balance (sch_payments s ! 59) * rate)
                          (pd_balance (sch_payments s ! 59))
                \<and> pd_payment (sch_payments s ! 60)
                    = pd_principal (sch_payments s ! 60) + pd_interest (sch_payments s ! 60)))"
proof -
  have count: "getPaymentCount 25 Monthly = 300"
    by (simp add: getPaymentCount_def Math_round_def)
  have scenario:
    "pd_paymentNumber (sch_payments s ! 60) = 61
     \<and> pd_termNumber (sch_payments s ! 60) = 2
     \<and> (\<exists>rate levelPayment.
           getPeriodicRate (annualRate t2) Monthly = Some rate
           \<and> calculatePayment (pd_balance (sch_payments s ! 59)) (Some rate) 240
               = Some levelPayment
           \<and> pd_interest (sch_payments s ! 60) = pd_balance (sch_payments s ! 59) * rate
           \<and> pd_principal (sch_payments s ! 60)
               = min (levelPayment - pd_balance (sch_payments s ! 59) * rate)
                     (pd_balance (sch_payments s ! 59))
           \<and> pd_payment (sch_payments s ! 60)
               = pd_principal (sch_payments s ! 60) + pd_interest (sch_payments s ! 60))"
    if run: "calculateAmortizationSchedule params = Inr s"
      and p: "amortizationYears params = 25" "paymentFrequency params = Monthly"
        "sort_key startPayment (renewalPeriods params) = [t1, t2]"
      and starts: "startPayment t1 = 1" "startPayment t2 = 61"
      and len: "61 \<le> length (sch_payments s)"
  proof -
    from engine_termBlocks [OF run]
    have "termBlocks params 300 1 [t1, t2] (principal params) 1 (sch_payments s)"
      by (simp add: p count)
    from second_term_entry [OF this starts len] show ?thesis
      by (simp add: p)
  qed
  from calculatePayment_straight_line calculatePayment_annuity engine_termBlocks scenario
  show ?thesis by blast
qed

theorem payment_sizing_witness:
  "calculateAmortizationSchedule renewalExample = Inr renewalExampleSchedule
   \<and> pd_paymentNumber (sch_payments renewalExampleSchedule ! 60) = 61
   \<and> pd_termNumber (sch_payments renewalExampleSchedule ! 60) = 2
   \<and> calculatePayment 320000 (Some 0) 240 = Some (320000 / 240)
   \<and> pd_interest (sch_payments renewalExampleSchedule ! 60) = 0
   \<and> pd_principal (sch_payments renewalExampleSchedule ! 60) = 320000 / 240
   \<and> calculatePayment 1000 (Some (1 / 100)) 2 = Some (1000 * (1 / 100) * (101 / 100) ^ 2
                                                       / ((101 / 100) ^ 2 - 1))"
proof -
  note run = renewalExample_schedule(1)
  have hyp: "amortizationYears renewalExample = 25" "paymentFrequency renewalExample = Monthly"
    by (simp_all add: renewalExample_def)
  have sorted_terms: "sort_key startPayment (renewalPeriods renewalExample)
      = [\<lparr> startPayment = 1, annualRate = 0, termYears = 5 \<rparr>,
         \<lparr> startPayment = 61, annualRate = 0, termYears = 20 \<rparr>]"
    by (simp add: renewalExample_def)
  have len: "61 \<le> length (sch_payments renewalExampleSchedule)"
    by (simp add: renewalExample_schedule(2))
  note inst = payment_sizing [where params = renewalExample and s = renewalExampleSchedule
      and ?t1.0 = "\<lparr> startPayment = 1, annualRate = 0, termYears = 5 \<rparr>"
      and ?t2.0 = "\<lparr> startPayment = 61, annualRate = 0, termYears = 20 \<rparr>"]
  from inst [where b = 320000 and n = 240 and r = 1, THEN conjunct2, THEN conjunct2,
      THEN conjunct2] run hyp sorted_terms len
  have entry: "pd_paymentNumber (sch_payments renewalExampleSchedule ! 60) = 61
     \<and> pd_termNumber (sch_payments renewalExampleSchedule ! 60) = 2
     \<and> (\<exists>rate levelPayment.
           getPeriodicRate 0 Monthly = Some rate
           \<and> calculatePayment (pd_balance (sch_payments renewalExampleSchedule ! 59)) (Some rate)
                240 = Some levelPayment
           \<and> pd_interest (sch_payments renewalExampleSchedule ! 60)
               = pd_balance (sch_payments renewalExampleSchedule ! 59) * rate
           \<and> pd_principal (sch_payments renewalExampleSchedule ! 60)
               = min (levelPayment - pd_balance (sch_payments renewalExampleSchedule ! 59) * rate)
                     (pd_balance (sch_payments renewalExampleSchedule ! 59))
           \<and> pd_payment (sch_payments renewalExampleSchedule ! 60)
               = pd_principal (sch_payments renewalExampleSchedule ! 60)
                 + pd_interest (sch_payments renewalExampleSchedule ! 60))"
    by simp
  from inst [where b = 320000 and n = 240 and r = 1, THEN conjunct1]
  have straight: "calculatePayment 320000 (Some 0) 240 = Some (320000 / 240)"
    by simp
  from inst [where b = 1000 and n = 2 and r = "1 / 100", THEN conjunct2, THEN conjunct1]
  have annuity: "calculatePayment 1000 (Some (1 / 100)) 2
      = Some (1000 * (1 / 100) * (101 / 100) ^ 2 / ((101 / 100) ^ 2 - 1))"
    by simp
  from entry straight
  have "pd_interest (sch_payments renewalExampleSchedule ! 60) = 0
        \<and> pd_principal (sch_payments renewalExampleSchedule ! 60) = 320000 / 240"
    by (auto simp: rate_zero renewalExample_schedule(3))
  with entry straight annuity run show ?thesis by simp
qed

subsection \<open>The balance is retired within the amortization\<close>

lemma geomSum_rate: "r * geomSum r m = (1 + r) ^ m - 1"
  by (induction m) (simp_all add: algebra_simps)

lemma geomSum_zero_rate: "geomSum 0 m = of_nat m"
  by (induction m) simp_all

lemma geomSum_nonneg: "0 \<le> r \<Longrightarrow> 0 \<le> geomSum r m"
  by (induction m) simp_all

lemma geomSum_pos: "0 \<le> r \<Longrightarrow> 0 < m \<Longrightarrow> 0 < geomSum r m"
proof (induction m)
  case 0
  then show ?case by simp
next
  case (Suc m)
  have "0 < (1 + r) ^ m" using Suc.prems(1) by simp
  with geomSum_nonneg [OF Suc.prems(1), of m] show ?case by simp
qed

lemma calculatePayment_geomSum:
  assumes "0 \<le> r" "1 \<le> n"
  shows "\<exists>P. calculatePayment b (Some r) n = Some P
           \<and> P * geomSum r (nat n) = b * (1 + r) ^ nat n"
proof (cases "r = 0")
  case True
  with assms(2) show ?thesis
    by (simp add: calculatePayment_def geomSum_zero_rate)
next
  case False
  with assms have r: "0 < r" and n: "0 < n" by simp_all
  let ?q = "(1 + r) ^ nat n"
  have "1 < ?q" using r n by simp
  then have ne: "?q - 1 \<noteq> 0" by simp
  have g: "geomSum r (nat n) = (?q - 1) / r"
    using geomSum_rate [of r "nat n"] r by (simp add: field_simps)
  show ?thesis
    using r ne by (simp add: calculatePayment_annuity [OF r n] g)
qed

lemma getPeriodicRate_nonneg:
  assumes "0 \<le> a"
  shows "\<exists>r. getPeriodicRate a f = Some r \<and> 0 \<le> r"
proof -
  have "1 \<le> (1 + a / 2) powr (2 / of_int (getPaymentsPerYear f))"
    using assms by (intro ge_one_powr_ge_zero) (cases f; simp)+
  then show ?thesis
    by (simp add: getPeriodicRate_nonneg_rate [OF assms])
qed

lemma additionalPaymentStep_nonneg:
  assumes "0 \<le> acc" "0 \<le> amount r"
  shows "0 \<le> additionalPaymentStep n acc r"
  using assms
  by (cases "ap_type r") (auto simp: additionalPaymentStep_def Let_def split: option.splits)

lemma foldl_additionalPaymentStep_nonneg:
  assumes "\<forall>r \<in> set rules. 0 \<le> amount r" "0 \<le> acc"
  shows "0 \<le> foldl (additionalPaymentStep n) acc rules"
  using assms
  by (induction rules arbitrary: acc) (simp_all add: additionalPaymentStep_nonneg)

lemma getAdditionalPaymentAmount_nonneg:
  assumes "\<forall>r \<in> set rules. 0 \<le> amount r"
  shows "0 \<le> getAdditionalPaymentAmount n rules"
  using foldl_additionalPaymentStep_nonneg [OF assms, of 0 n]
  by (simp add: getAdditionalPaymentAmount_def)

text \<open>One pass of the payment loop under the annuity invariant.\<close>

lemma annuity_step:
  assumes inv: "annuityInvariant r P T st"
    and r: "0 \<le> r"
    and run: "0.01 < st_balance st"
    and extras: "\<forall>x \<in> set (additionalPayments params). 0 \<le> amount x"
  shows "annuityInvariant r P T (paymentStep params term ti r P st)
         \<and> st_balance (paymentStep params term ti r P st) \<le> st_balance st
         \<and> st_paymentNumber st \<le> T"
proof -
  define b where "b = st_balance st"
  define m where "m = nat (T + 1 - st_paymentNumber st)"
  define s where "s = paymentStep params term ti r P st"
  define x where "x = pd_principal (newEntry params term ti r P st)"
  define y where "y = pd_additionalPayment (newEntry params term ti r P st)"
  from inv have P: "0 \<le> P" and pn: "st_paymentNumber st \<le> T + 1"
    and ann: "b * (1 + r) ^ m \<le> P * geomSum r m"
    by (simp_all add: annuityInvariant_def b_def m_def)
  have b_pos: "0 < b" using run by (simp add: b_def)
  have m_pos: "0 < m"
  proof (rule ccontr)
    assume "\<not> 0 < m"
    then have "m = 0" by simp
    with ann have "b \<le> 0" by simp
    with b_pos show False by simp
  qed
  then have pn': "st_paymentNumber st \<le> T" by (simp add: m_def)
  obtain k where k: "m = Suc k" using m_pos by (cases m) auto
  have k': "nat (T + 1 - (st_paymentNumber st + 1)) = k"
    using k by (simp add: m_def)
  have q: "0 < (1 + r) ^ k" "0 < (1 + r) ^ m" using r by simp_all
  have "b * r * (1 + r) ^ m \<le> P * (r * geomSum r m)"
    using mult_left_mono [OF ann r] by (simp add: mult_ac)
  also have "\<dots> = P * ((1 + r) ^ m - 1)" by (simp add: geomSum_rate)
  also have "\<dots> \<le> P * (1 + r) ^ m" using P by (simp add: mult_left_mono)
  finally have interest: "b * r \<le> P"
    using q(2) by simp
  have x: "x = min (P - b * r) b" by (simp add: x_def b_def newEntry_fields)
  have x_nonneg: "0 \<le> x"
    using interest b_pos by (simp add: x)
  have y_nonneg: "0 \<le> y"
    using getAdditionalPaymentAmount_nonneg [OF extras, of "st_paymentNumber st"] x
    by (simp add: y_def x_def b_def newEntry_fields(5) min_def)
  have bal: "st_balance s = b - x - y"
    unfolding s_def b_def x_def y_def by (rule paymentStep_balance)
  have nonneg: "0 \<le> st_balance s" unfolding s_def by (rule paymentStep_balance_nonneg)
  have le: "st_balance s \<le> b" using bal x_nonneg y_nonneg by simp
  have b1: "st_balance s \<le> b - x" using bal y_nonneg by simp
  have key: "(b - x) * (1 + r) ^ k \<le> P * geomSum r k"
  proof (cases "P - b * r \<le> b")
    case True
    then have "b - x = b * (1 + r) - P"
      by (simp add: x algebra_simps)
    then have "(b - x) * (1 + r) ^ k = b * (1 + r) ^ m - P * (1 + r) ^ k"
      by (simp add: k algebra_simps)
    also have "\<dots> \<le> P * geomSum r m - P * (1 + r) ^ k" using ann by simp
    also have "\<dots> = P * geomSum r k" by (simp add: k algebra_simps)
    finally show ?thesis .
  next
    case False
    then have "b - x = 0" by (simp add: x)
    then show ?thesis using P geomSum_nonneg [OF r, of k] by simp
  qed
  have "st_balance s * (1 + r) ^ k \<le> (b - x) * (1 + r) ^ k"
    using b1 q(1) by (simp add: mult_right_mono)
  with key have "st_balance s * (1 + r) ^ k \<le> P * geomSum r k" by simp
  moreover have "st_paymentNumber s = st_paymentNumber st + 1" by (simp add: s_def)
  moreover note P nonneg pn' le k'
  ultimately have "annuityInvariant r P T s \<and> st_balance s \<le> b \<and> st_paymentNumber st \<le> T"
    by (simp add: annuityInvariant_def)
  then show ?thesis by (simp add: s_def b_def)
qed

lemma descending_snoc:
  "descending b (es @ [e]) \<longleftrightarrow> descending b es \<and> pd_balance e \<le> lastBalance b es"
  by (induction es arbitrary: b) (auto simp: lastBalance_def)

lemma descending_nth:
  assumes "descending b es" "i + 1 < length es"
  shows "pd_balance (es ! (i + 1)) \<le> pd_balance (es ! i)"
  using assms
proof (induction es arbitrary: b i)
  case Nil
  then show ?case by simp
next
  case (Cons e es)
  show ?case
  proof (cases i)
    case 0
    with Cons.prems show ?thesis by (cases es) auto
  next
    case (Suc k)
    with Cons.prems have "descending (pd_balance e) es" "k + 1 < length es" by auto
    from Cons.IH [OF this] Suc show ?thesis by simp
  qed
qed

lemma paymentLoop_returns:
  "\<exists>st'. paymentLoop params term ti n (Some r) (Some P) i st = Inr st'"
proof (induction params "term" ti n "Some r :: real option" "Some P :: real option" i st
    rule: paymentLoop.induct)
  case (1 params "term" ti n i st)
  show ?case
  proof (cases "i < n \<and> st_balance st > 0.01")
    case False
    then show ?thesis by (subst paymentLoop.simps) auto
  next
    case True
    show ?thesis
    proof (cases "st_balance (paymentStep params term ti r P st) < 0.01")
      case brk: True
      with True show ?thesis by (subst paymentLoop.simps) (auto simp: Let_def)
    next
      case False
      from "1.hyps" [OF True refl refl refl False] obtain st' where
        "paymentLoop params term ti n (Some r) (Some P) (i + 1)
           (paymentStep params term ti r P st) = Inr st'" by blast
      with True False show ?thesis by (subst paymentLoop.simps) (auto simp: Let_def)
    qed
  qed
qed

lemma paymentLoop_idle:
  assumes "st_balance st \<le> 0.01"
  shows "paymentLoop params term ti n r pay i st = Inr st"
  using assms by (subst paymentLoop.simps) auto

lemma paymentLoop_schedule:
  assumes S: "scheduleInvariant b0 T st"
    and r: "0 \<le> r"
    and extras: "\<forall>x \<in> set (additionalPayments params). 0 \<le> amount x"
    and sized: "0.01 < st_balance st \<longrightarrow>
                  (\<exists>P. pay = Some P
                     \<and> P * geomSum r (nat (T + 1 - st_paymentNumber st))
                         = st_balance st * (1 + r) ^ nat (T + 1 - st_paymentNumber st))"
  shows "\<exists>st'. paymentLoop params term ti n (Some r) pay 0 st = Inr st'
           \<and> scheduleInvariant b0 T st'
           \<and> st_balance st' \<le> st_balance st
           \<and> (st_balance st' \<le> 0.01 \<or> st_paymentNumber st + n \<le> st_paymentNumber st')"
proof (cases "0.01 < st_balance st")
  case False
  then have "paymentLoop params term ti n (Some r) pay 0 st = Inr st"
    by (intro paymentLoop_idle) simp
  with S False show ?thesis by auto
next
  case True
  with sized obtain P where pay: "pay = Some P"
    and P: "P * geomSum r (nat (T + 1 - st_paymentNumber st))
              = st_balance st * (1 + r) ^ nat (T + 1 - st_paymentNumber st)"
    by blast
  from S True have pn: "st_paymentNumber st \<le> T"
    by (auto simp: scheduleInvariant_def)
  then have m_pos: "0 < nat (T + 1 - st_paymentNumber st)" by simp
  have "0 \<le> st_balance st * (1 + r) ^ nat (T + 1 - st_paymentNumber st)"
    using True r by simp
  with P have "0 \<le> P * geomSum r (nat (T + 1 - st_paymentNumber st))" by simp
  with geomSum_pos [OF r m_pos] have P_nonneg: "0 \<le> P"
    by (simp add: zero_le_mult_iff)
  have init_ann: "annuityInvariant r P T st"
    using P P_nonneg True pn by (simp add: annuityInvariant_def)
  from paymentLoop_returns obtain st' where
    run: "paymentLoop params term ti n (Some r) (Some P) 0 st = Inr st'" by blast
  define Q where "Q = (\<lambda>j s. annuityInvariant r P T s
      \<and> descending b0 (st_payments s)
      \<and> st_balance s = lastBalance b0 (st_payments s)
      \<and> st_paymentNumber s = int (length (st_payments s)) + 1
      \<and> st_paymentNumber s = st_paymentNumber st + j
      \<and> st_balance s \<le> st_balance st)"
  have init: "Q 0 st"
    using S init_ann by (simp add: Q_def scheduleInvariant_def)
  have step: "Q (j + 1) (paymentStep params term ti r' pay' s)"
    if "Q j s" "j < n" "st_balance s > 0.01" "Some r = Some r'" "Some P = Some pay'"
    for j s r' pay'
  proof -
    from that(4,5) have eq: "r' = r" "pay' = P" by simp_all
    from that(1) have a: "annuityInvariant r P T s"
      and d: "descending b0 (st_payments s)"
      and l: "st_balance s = lastBalance b0 (st_payments s)"
      and c: "st_paymentNumber s = int (length (st_payments s)) + 1"
      and o: "st_paymentNumber s = st_paymentNumber st + j"
      and le: "st_balance s \<le> st_balance st"
      by (simp_all add: Q_def)
    from annuity_step [OF a r that(3) extras, of "term" ti]
    have a': "annuityInvariant r P T (paymentStep params term ti r P s)"
      and down: "st_balance (paymentStep params term ti r P s) \<le> st_balance s"
      by simp_all
    show ?thesis
      unfolding eq Q_def
      using a' down d l c o le
      by (simp add: paymentStep_payments descending_snoc newEntry_balance lastBalance_def)
  qed
  from paymentLoop_induct_rule [where Q = Q, OF run init step]
  obtain j where j: "0 \<le> j" "Q j st'" "st_balance st' \<le> 0.01 \<or> n \<le> j"
    by blast
  from j(2) have a: "annuityInvariant r P T st'"
    and rest: "descending b0 (st_payments st')"
      "st_balance st' = lastBalance b0 (st_payments st')"
      "st_paymentNumber st' = int (length (st_payments st')) + 1"
      "st_paymentNumber st' = st_paymentNumber st + j"
      "st_balance st' \<le> st_balance st"
    by (simp_all add: Q_def)
  have end_ok: "st_balance st' \<le> 0.01" if "st_paymentNumber st' = T + 1"
    using a that by (simp add: annuityInvariant_def)
  have "scheduleInvariant b0 T st'"
    using a rest end_ok by (simp add: scheduleInvariant_def annuityInvariant_def)
  with run rest j(3) show ?thesis
    unfolding pay by auto
qed

lemma termLoop_schedule:
  assumes S: "scheduleInvariant b0 T st"
    and rates: "\<forall>t \<in> set ts. 0 \<le> annualRate t"
    and extras: "\<forall>x \<in> set (additionalPayments params). 0 \<le> amount x"
    and align: "ts \<noteq> [] \<longrightarrow> st_balance st \<le> 0.01 \<or> startPayment (hd ts) \<le> st_paymentNumber st"
  shows "\<exists>st'. termLoop params T ti ts st = Inr st'
           \<and> scheduleInvariant b0 T st'
           \<and> (ts \<noteq> [] \<longrightarrow> st_balance st' \<le> 0.01)"
  using S rates align
proof (induction ts arbitrary: ti st)
  case Nil
  then show ?case by simp
next
  case (Cons t ts)
  let ?n = "(case ts of [] \<Rightarrow> T | nextTerm # _ \<Rightarrow> startPayment nextTerm - 1) - startPayment t + 1"
  from Cons.prems(2) have "0 \<le> annualRate t" by simp
  from getPeriodicRate_nonneg [OF this, of "paymentFrequency params"]
  obtain r where r: "getPeriodicRate (annualRate t) (paymentFrequency params) = Some r" "0 \<le> r"
    by blast
  let ?pay = "calculatePayment (st_balance st) (Some r) (T - st_paymentNumber st + 1)"
  have sized: "0.01 < st_balance st \<longrightarrow>
      (\<exists>P. ?pay = Some P
         \<and> P * geomSum r (nat (T + 1 - st_paymentNumber st))
             = st_balance st * (1 + r) ^ nat (T + 1 - st_paymentNumber st))"
  proof
    assume "0.01 < st_balance st"
    with Cons.prems(1) have "1 \<le> T - st_paymentNumber st + 1"
      by (auto simp: scheduleInvariant_def)
    have eq: "nat (T + 1 - st_paymentNumber st) = nat (T - st_paymentNumber st + 1)"
      by simp
    from calculatePayment_geomSum [OF r(2) \<open>1 \<le> T - st_paymentNumber st + 1\<close>,
        of "st_balance st"]
    show "\<exists>P. ?pay = Some P
         \<and> P * geomSum r (nat (T + 1 - st_paymentNumber st))
             = st_balance st * (1 + r) ^ nat (T + 1 - st_paymentNumber st)"
      unfolding eq .
  qed
  from paymentLoop_schedule [OF Cons.prems(1) r(2) extras sized, of t ti ?n]
  obtain s1 where s1:
    "paymentLoop params t ti ?n (Some r) ?pay 0 st = Inr s1"
    "scheduleInvariant b0 T s1"
    "st_balance s1 \<le> st_balance st"
    "st_balance s1 \<le> 0.01 \<or> st_paymentNumber st + ?n \<le> st_paymentNumber s1"
    by blast
  have unfold: "termLoop params T ti (t # ts) st
      = (if st_balance s1 < 0.01 then Inr s1 else termLoop params T (ti + 1) ts s1)"
    by (simp add: Let_def r(1) s1(1))
  show ?case
  proof (cases "st_balance s1 < 0.01")
    case True
    with unfold s1(2) show ?thesis by simp
  next
    case False
    have align1: "st_balance s1 \<le> 0.01 \<or> startPayment t + ?n \<le> st_paymentNumber s1"
      using Cons.prems(3) s1(3,4) by auto
    show ?thesis
    proof (cases ts)
      case Nil
      have "st_balance s1 \<le> 0.01"
      proof (rule ccontr)
        assume "\<not> st_balance s1 \<le> 0.01"
        with align1 Nil have "T + 1 \<le> st_paymentNumber s1" by simp
        with s1(2) have "st_paymentNumber s1 = T + 1" by (simp add: scheduleInvariant_def)
        with s1(2) \<open>\<not> st_balance s1 \<le> 0.01\<close> show False
          by (simp add: scheduleInvariant_def)
      qed
      with unfold False Nil s1(2) show ?thesis by simp
    next
      case (Cons t' ts')
      from Cons.prems(2) have rates': "\<forall>t \<in> set ts. 0 \<le> annualRate t" by simp
      have align': "ts \<noteq> [] \<longrightarrow>
          st_balance s1 \<le> 0.01 \<or> startPayment (hd ts) \<le> st_paymentNumber s1"
        using align1 Cons by auto
      from Cons.IH [OF s1(2) rates' align', of "ti + 1"] Cons
      obtain st' where "termLoop params T (ti + 1) ts s1 = Inr st'"
        "scheduleInvariant b0 T st'" "st_balance st' \<le> 0.01"
        by auto
      with unfold False show ?thesis by simp
    qed
  qed
qed

lemma shadowPaymentLoop_returns:
  assumes "c \<le> T \<longrightarrow> pay \<noteq> None"
  shows "\<exists>w. shadowPaymentLoop e T (Some r) pay (b, tot, c) = Inr w"
  using assms
proof (induction e T "Some r :: real option" pay "(b, tot, c)" arbitrary: b tot c
    rule: shadowPaymentLoop.induct)
  case (1 e T pay b tot c)
  show ?case
  proof (cases "c \<le> e \<and> b > 0.01 \<and> c \<le> T")
    case False
    then show ?thesis by (subst shadowPaymentLoop.simps) auto
  next
    case True
    with "1.prems" obtain P where P: "pay = Some P" by auto
    have "\<exists>w. shadowPaymentLoop e T (Some r) pay
            (b - min (P - b * r) b, tot + b * r, c + 1) = Inr w"
      using "1.hyps" [OF True refl P refl refl refl] P by simp
    with True P show ?thesis
      by (subst shadowPaymentLoop.simps) (auto simp: Let_def)
  qed
qed

lemma shadowTermLoop_returns:
  assumes "\<forall>t \<in> set ts. 0 \<le> annualRate t"
  shows "\<exists>w. shadowTermLoop params T ts (b, tot, c) = Inr w"
  using assms
proof (induction ts arbitrary: b tot c)
  case Nil
  then show ?case by simp
next
  case (Cons t ts)
  from Cons.prems have "0 \<le> annualRate t" by simp
  from getPeriodicRate_nonneg [OF this, of "paymentFrequency params"]
  obtain r where r: "getPeriodicRate (annualRate t) (paymentFrequency params) = Some r" "0 \<le> r"
    by blast
  let ?e = "(case ts of [] \<Rightarrow> T | nextTerm # _ \<Rightarrow> startPayment nextTerm - 1)"
  let ?pay = "calculatePayment b (Some r) (T - c + 1)"
  have "c \<le> T \<longrightarrow> ?pay \<noteq> None"
  proof
    assume "c \<le> T"
    then have "1 \<le> T - c + 1" by simp
    from calculatePayment_geomSum [OF r(2) this, of b] show "?pay \<noteq> None" by auto
  qed
  from shadowPaymentLoop_returns [OF this, of ?e r b tot] obtain w1 where
    w1: "shadowPaymentLoop ?e T (Some r) ?pay (b, tot, c) = Inr w1" by blast
  obtain b1 tot1 c1 where t1: "w1 = (b1, tot1, c1)" by (cases w1) auto
  from Cons.IH [of b1 tot1 c1] Cons.prems obtain w where
    w: "shadowTermLoop params T ts w1 = Inr w"
    unfolding t1 by auto
  show ?case
  proof (cases "b > 0.01")
    case True
    with w1 r(1) have "shadowTermLoop params T (t # ts) (b, tot, c)
        = shadowTermLoop params T ts w1"
      by (simp add: Let_def)
    with w show ?thesis by (intro exI [of _ w]) (simp only:)
  next
    case False
    then have "shadowTermLoop params T (t # ts) (b, tot, c) = Inr (b, tot, c)"
      by simp
    then show ?thesis by (rule exI)
  qed
qed

lemma interestWithoutAdditional_returns:
  assumes "\<forall>t \<in> set (renewalPeriods params). 0 \<le> annualRate t"
  shows "\<exists>x. interestWithoutAdditional params = Inr x"
proof -
  from assms have "\<forall>t \<in> set (sort_key startPayment (renewalPeriods params)). 0 \<le> annualRate t"
    by simp
  from shadowTermLoop_returns [OF this] obtain w where
    "shadowTermLoop params (getPaymentCount (amortizationYears params) (paymentFrequency params))
       (sort_key startPayment (renewalPeriods params)) (principal params, 0, 1) = Inr w"
    by blast
  then show ?thesis
    by (cases w) (simp add: interestWithoutAdditional_def Let_def)
qed

lemma sort_key_hd_min:
  assumes "x \<in> set xs" "\<forall>y \<in> set xs. f x \<le> f y"
  shows "sort_key f xs \<noteq> [] \<and> f (hd (sort_key f xs)) = f x"
proof -
  have ne: "sort_key f xs \<noteq> []" using assms(1) by (metis empty_iff list.set(1) set_sort)
  then obtain y ys where ys: "sort_key f xs = y # ys" by (cases "sort_key f xs") auto
  have "sorted (map f (sort_key f xs))" by (rule sorted_sort_key)
  with ys have le: "\<forall>z \<in> set (y # ys). f y \<le> f z" by auto
  have "x \<in> set (y # ys)" using assms(1) ys by (metis set_sort)
  with le have "f y \<le> f x" by blast
  moreover have "y \<in> set xs" using ys by (metis list.set_intros(1) set_sort)
  with assms(2) have "f x \<le> f y" by blast
  ultimately show ?thesis using ys by simp
qed

subsection \<open>The shape of the schedule\<close>

lemma scheduleInvariant_initial:
  assumes "1 \<le> T" "0 \<le> principal params"
  shows "scheduleInvariant (principal params) T (initialState params)"
  using assms by (simp add: scheduleInvariant_def initialState_def lastBalance_def)

lemma engine_returns:
  assumes "renewalPeriods params \<noteq> []"
    and "5 \<le> downPaymentPercent params"
    and "termLoop params (getPaymentCount (amortizationYears params) (paymentFrequency params))
           0 (sort_key startPayment (renewalPeriods params)) (initialState params) = Inr st"
    and "interestWithoutAdditional params = Inr x"
  shows "\<exists>s. calculateAmortizationSchedule params = Inr s \<and> sch_payments s = st_payments st"
proof -
  from insurance_cases [of "purchasePrice params" "downPaymentPercent params"
      "additionalFinancing params" "cmhcPstRate params"] assms(2)
  obtain ins where "calculateMortgageWithInsurance (purchasePrice params)
      (downPaymentPercent params) (additionalFinancing params) (cmhcPstRate params) = Inr ins"
    by auto
  with assms(1,3,4) show ?thesis
    by (simp add: calculateAmortizationSchedule_def Let_def)
qed

text \<open>
  Claim C3 takes a non-empty sorted list of terms with positive start indices and a down
  payment of at least 5 percent as a valid input. A single term that starts at payment 13
  of 12 makes no payment, so the ledger is empty; a single term that starts at payment 2
  gets 11 payment slots while the payment is sized for 12, so the ledger ends with a
  balance of 46875.
\<close>

theorem schedule_shape_counterexample:
  "map startPayment (renewalPeriods beyondHorizonExample) = [13]
   \<and> downPaymentPercent beyondHorizonExample = 20
   \<and> map_sum id sch_payments (calculateAmortizationSchedule beyondHorizonExample) = Inr []
   \<and> map startPayment (renewalPeriods lateStartExample) = [2]
   \<and> downPaymentPercent lateStartExample = 20
   \<and> map_sum id (map pd_balance o sch_payments) (calculateAmortizationSchedule lateStartExample)
       = Inr [515625, 468750, 421875, 375000, 328125, 281250, 234375, 187500, 140625, 93750,
              46875]"
  by (simp add: beyondHorizonExample_def lateStartExample_def limitExample_def engine_eval
        cong: let_weak_cong)

text \<open>
  Claim C3, amended. When a term starts at payment 1 and no term starts before it, the
  annual rates and the amounts of the additional payments are not negative, the down
  payment is at least 5 percent, the nominal payment count is at least 1 and the principal
  is above the tolerance of 0.01, the engine returns a schedule; its ledger is not empty
  and no longer than the nominal payment count, the remaining balance never goes up from
  one entry to the next, and the last remaining balance is at most 0.01.
\<close>

theorem schedule_shape:
  assumes terms: "renewalPeriods params \<noteq> []"
      "\<forall>t \<in> set (renewalPeriods params). 1 \<le> startPayment t \<and> 0 \<le> annualRate t"
      "\<exists>t \<in> set (renewalPeriods params). startPayment t = 1"
    and dp: "5 \<le> downPaymentPercent params"
    and extras: "\<forall>x \<in> set (additionalPayments params). 0 \<le> amount x"
    and count: "1 \<le> getPaymentCount (amortizationYears params) (paymentFrequency params)"
    and pr: "0.01 < principal params"
  shows "\<exists>s. calculateAmortizationSchedule params = Inr s
           \<and> sch_payments s \<noteq> []
           \<and> int (length (sch_payments s))
               \<le> getPaymentCount (amortizationYears params) (paymentFrequency params)
           \<and> (\<forall>i. i + 1 < length (sch_payments s) \<longrightarrow>
                  pd_balance (sch_payments s ! (i + 1)) \<le> pd_balance (sch_payments s ! i))
           \<and> pd_balance (last (sch_payments s)) \<le> 0.01"
proof -
  let ?T = "getPaymentCount (amortizationYears params) (paymentFrequency params)"
  let ?ts = "sort_key startPayment (renewalPeriods params)"
  from terms(3) obtain t1 where t1: "t1 \<in> set (renewalPeriods params)" "startPayment t1 = 1"
    by blast
  with terms(2) have "\<forall>y \<in> set (renewalPeriods params). startPayment t1 \<le> startPayment y"
    by simp
  from sort_key_hd_min [OF t1(1) this] t1(2)
  have ts: "?ts \<noteq> []" "startPayment (hd ?ts) = 1" by simp_all
  have rates: "\<forall>t \<in> set ?ts. 0 \<le> annualRate t" using terms(2) by simp
  have S0: "scheduleInvariant (principal params) ?T (initialState params)"
    using count pr by (intro scheduleInvariant_initial) simp_all
  have align: "?ts \<noteq> [] \<longrightarrow> st_balance (initialState params) \<le> 0.01
                 \<or> startPayment (hd ?ts) \<le> st_paymentNumber (initialState params)"
    using ts(2) by (simp add: initialState_def)
  from termLoop_schedule [OF S0 rates extras align, of 0] ts(1)
  obtain st where st: "termLoop params ?T 0 ?ts (initialState params) = Inr st"
    "scheduleInvariant (principal params) ?T st" "st_balance st \<le> 0.01"
    by blast
  from interestWithoutAdditional_returns terms(2) obtain x where
    x: "interestWithoutAdditional params = Inr x" by blast
  from engine_returns [OF terms(1) dp st(1) x] obtain s where
    s: "calculateAmortizationSchedule params = Inr s" "sch_payments s = st_payments st"
    by blast
  from st(2) have inv: "descending (principal params) (st_payments st)"
    "st_balance st = lastBalance (principal params) (st_payments st)"
    "st_paymentNumber st = int (length (st_payments st)) + 1"
    "st_paymentNumber st \<le> ?T + 1"
    by (simp_all add: scheduleInvariant_def)
  have ne: "st_payments st \<noteq> []"
  proof
    assume "st_payments st = []"
    with inv(2) have "st_balance st = principal params" by (simp add: lastBalance_def)
    with st(3) pr show False by simp
  qed
  have len: "int (length (st_payments st)) \<le> ?T" using inv(3,4) by simp
  have desc: "\<forall>i. i + 1 < length (st_payments st) \<longrightarrow>
      pd_balance (st_payments st ! (i + 1)) \<le> pd_balance (st_payments st ! i)"
    using descending_nth [OF inv(1)] by blast
  have final: "pd_balance (last (st_payments st)) \<le> 0.01"
    using inv(2) ne st(3) by (simp add: lastBalance_def)
  from s ne len desc final show ?thesis by auto
qed

theorem schedule_shape_witness:
  "\<exists>s. calculateAmortizationSchedule limitExample = Inr s
        \<and> sch_payments s \<noteq> []
        \<and> int (length (sch_payments s)) \<le> 12
        \<and> pd_balance (last (sch_payments s)) \<le> 0.01"
proof -
  have h: "renewalPeriods limitExample \<noteq> []"
    "\<forall>t \<in> set (renewalPeriods limitExample). 1 \<le> startPayment t \<and> 0 \<le> annualRate t"
    "\<exists>t \<in> set (renewalPeriods limitExample). startPayment t = 1"
    "5 \<le> downPaymentPercent limitExample"
    "\<forall>x \<in> set (additionalPayments limitExample). 0 \<le> amount x"
    "0.01 < principal limitExample"
    by (simp_all add: limitExample_def)
  have c: "getPaymentCount (amortizationYears limitExample) (paymentFrequency limitExample) = 12"
    by (simp add: limitExample_def getPaymentCount_def Math_round_def)
  then have c1: "1 \<le> getPaymentCount (amortizationYears limitExample)
      (paymentFrequency limitExample)" by simp
  from schedule_shape [OF h(1,2,3,4,5) c1 h(6)] show ?thesis
    unfolding c by blast
qed

subsection \<open>Prepayment resolver\<close>

lemma additionalPaymentStep_unless_zero:
  "additionalPaymentStep n acc r
     = acc + (if ruleContributesUnlessZero n r then amount r else 0)"
  by (cases "ap_type r")
     (auto simp: additionalPaymentStep_def ruleContributesUnlessZero_def Let_def
        split: option.splits)

lemma foldl_additionalPaymentStep:
  "foldl (additionalPaymentStep n) acc rules = acc + extraAmountAtUnlessZero n rules"
proof (induction rules arbitrary: acc)
  case Nil
  then show ?case by (simp add: extraAmountAtUnlessZero_def)
next
  case (Cons r rules)
  then show ?case
    by (simp add: additionalPaymentStep_unless_zero extraAmountAtUnlessZero_def)
qed

lemma ruleContributes_unless_zero:
  assumes "endPayment r \<noteq> Some 0" "frequency r \<noteq> Some 0"
  shows "ruleContributesUnlessZero n r = ruleContributes n r"
  using assms
  by (cases "ap_type r")
     (auto simp: ruleContributesUnlessZero_def ruleContributes_def split: option.splits)

lemma extraAmountAt_unless_zero:
  assumes "\<forall>r \<in> set rules. endPayment r \<noteq> Some 0 \<and> frequency r \<noteq> Some 0"
  shows "extraAmountAtUnlessZero n rules = extraAmountAt n rules"
proof -
  have "filter (ruleContributesUnlessZero n) rules = filter (ruleContributes n) rules"
    using assms by (intro filter_cong refl) (simp add: ruleContributes_unless_zero)
  then show ?thesis by (simp add: extraAmountAtUnlessZero_def extraAmountAt_def)
qed

text \<open>
  Claim C9 is worded for every rule list. The source reads an end index of 0 as no end
  index (\<^verbatim>\<open>addlPmt.endPayment && ...\<close>) and an interval of 0 as the default interval
  (\<^verbatim>\<open>addlPmt.frequency || 1\<close>): at payment 3 the rule that ends at 0 and the rule with
  interval 0 each resolve to 7, where the sum that the claim words is 0.
\<close>

theorem prepayment_resolver_counterexample:
  "getAdditionalPaymentAmount 3 [endZeroRule] = 7
   \<and> extraAmountAt 3 [endZeroRule] = 0
   \<and> getAdditionalPaymentAmount 3 [intervalZeroRule] = 7
   \<and> extraAmountAt 3 [intervalZeroRule] = 0"
  by (simp add: getAdditionalPaymentAmount_def additionalPaymentStep_def extraAmountAt_def
        ruleContributes_def endZeroRule_def intervalZeroRule_def)

text \<open>
  Claim C9, amended. For every payment index and every rule list the resolved extra
  amount is the sum of the amounts of the rules that contribute at the index: active,
  the index not before the start index and, when the end index is set and not 0, not
  after it, a one-time rule at its start index only, a recurring rule when the distance
  from its start is a multiple of its interval, the interval being 1 when it is unset or
  0. For rule lists in which no end index and no interval is 0 this is the sum that the
  claim words.
\<close>

theorem prepayment_resolver:
  "getAdditionalPaymentAmount paymentIndex rules = extraAmountAtUnlessZero paymentIndex rules
   \<and> ((\<forall>r \<in> set rules. endPayment r \<noteq> Some 0 \<and> frequency r \<noteq> Some 0)
        \<longrightarrow> getAdditionalPaymentAmount paymentIndex rules = extraAmountAt paymentIndex rules)"
  using foldl_additionalPaymentStep [of paymentIndex 0 rules] extraAmountAt_unless_zero
  by (simp add: getAdditionalPaymentAmount_def)

theorem prepayment_resolver_witness:
  "getAdditionalPaymentAmount 12 exampleRules = 10500
   \<and> getAdditionalPaymentAmount 11 exampleRules = 3
   \<and> getAdditionalPaymentAmount 30 exampleRules = 0
   \<and> getAdditionalPaymentAmount 3 (endZeroRule # exampleRules) = 10"
proof -
  have h: "\<forall>r \<in> set exampleRules. endPayment r \<noteq> Some 0 \<and> frequency r \<noteq> Some 0"
    by (simp add: exampleRules_def)
  have "extraAmountAt 12 exampleRules = 10500" "extraAmountAt 11 exampleRules = 3"
    "extraAmountAt 30 exampleRules = 0"
    by (simp_all add: extraAmountAt_def ruleContributes_def exampleRules_def)
  moreover have "extraAmountAtUnlessZero 3 (endZeroRule # exampleRules) = 10"
    by (simp add: extraAmountAtUnlessZero_def ruleContributesUnlessZero_def exampleRules_def
          endZeroRule_def)
  ultimately show ?thesis
    using h prepayment_resolver [of 12 exampleRules] prepayment_resolver [of 11 exampleRules]
      prepayment_resolver [of 30 exampleRules]
      prepayment_resolver [of 3 "endZeroRule # exampleRules"]
    by simp
qed

subsection \<open>Limit tracker\<close>

lemma checkPrepaymentLimit_Some:
  assumes "prepaymentLimits params = Some limits" "0 < extra"
  shows "checkPrepaymentLimit params date extra (curKey, curTotal, violations)
           = (let key' = getPeriodIdentifier date (startDate params) (resetPeriod limits);
                  total' = (if key' \<noteq> curKey then 0 else curTotal) + extra;
                  exceeds = (total' > doubleTimes (principal params)
                                        (doubleDivide (lumpSumLimitPercent limits) 100))
              in (exceeds, key', total', if exceeds then violations + 1 else violations))"
  using assms by (simp add: checkPrepaymentLimit_def Let_def)

lemma checkPrepaymentLimit_idle:
  assumes "prepaymentLimits params = None \<or> extra \<le> 0"
  shows "checkPrepaymentLimit params date extra (curKey, curTotal, violations)
           = (False, curKey, curTotal, violations)"
  using assms by (auto simp: checkPrepaymentLimit_def Let_def split: option.splits)

lemma getPeriodIdentifier_Anniversary:
  "getPeriodIdentifier date start Anniversary
     = ''anniversary-'' @ toString (((getFullYear date - getFullYear start) * 12
                                      + (getMonth date - getMonth start)) div 12)"
  by (simp add: getPeriodIdentifier_def Let_def)

lemma getPeriodIdentifier_ignores_day:
  "getPeriodIdentifier (date\<lparr> getDate := d1 \<rparr>) (start\<lparr> getDate := d2 \<rparr>) Anniversary
     = getPeriodIdentifier date start Anniversary"
  by (simp add: getPeriodIdentifier_def)

text \<open>The limit check as the payment loop uses it.\<close>

lemma paymentStep_limit:
  "(fst (checkPrepaymentLimit params
           (setDate (startDate params)
              (getDate (startDate params)
               + getDaysForPayment (st_paymentNumber st) (paymentFrequency params)))
           (pd_additionalPayment (newEntry params term ti r pay st))
           (st_currentPeriodIdentifier st, st_currentPeriodLumpSum st,
            st_prepaymentLimitViolations st)),
    st_currentPeriodIdentifier (paymentStep params term ti r pay st),
    st_currentPeriodLumpSum (paymentStep params term ti r pay st),
    st_prepaymentLimitViolations (paymentStep params term ti r pay st))
   = checkPrepaymentLimit params
       (setDate (startDate params)
          (getDate (startDate params)
           + getDaysForPayment (st_paymentNumber st) (paymentFrequency params)))
       (pd_additionalPayment (newEntry params term ti r pay st))
       (st_currentPeriodIdentifier st, st_currentPeriodLumpSum st,
        st_prepaymentLimitViolations st)
   \<and> pd_exceedsLimit (newEntry params term ti r pay st)
       = (if fst (checkPrepaymentLimit params
                    (setDate (startDate params)
                       (getDate (startDate params)
                        + getDaysForPayment (st_paymentNumber st) (paymentFrequency params)))
                    (pd_additionalPayment (newEntry params term ti r pay st))
                    (st_currentPeriodIdentifier st, st_currentPeriodLumpSum st,
                     st_prepaymentLimitViolations st))
          then Some True else None)"
  by (simp add: newEntry_def paymentStep_def Let_def split: prod.splits)

text \<open>
  The limit of 35 percent of 360000 as the source computes it: the double nearest to
  35 / 100 is below 0.35, and the double nearest to its product with 360000 is below
  126000.
\<close>

lemma boundary_limit:
  "doubleDivide 35 100 = 3152519739159347 / 9007199254740992"
  "doubleTimes 360000 (doubleDivide 35 100) = 8658654068735999 / 68719476736"
  by (simp_all add: doubleTimes_def doubleDivide_def roundToDouble_def roundHalfEven_def
        binaryExponent_def bitLength.simps Let_def cong: let_weak_cong)

lemma boundaryExample_run:
  "\<exists>s. calculateAmortizationSchedule boundaryExample = Inr s
        \<and> map pd_additionalPayment (sch_payments s) = [126000, 0, 0, 0, 0, 0, 0, 0]
        \<and> map pd_exceedsLimit (sch_payments s)
            = [Some True, None, None, None, None, None, None, None]
        \<and> sm_prepaymentLimitViolations (sch_summary s) = Some 1"
  by (simp add: boundaryExample_def engine_eval cong: let_weak_cong)

lemma boundaryExample_schedule:
  shows "calculateAmortizationSchedule boundaryExample = Inr boundaryExampleSchedule"
    and "map pd_additionalPayment (sch_payments boundaryExampleSchedule)
           = [126000, 0, 0, 0, 0, 0, 0, 0]"
    and "map pd_exceedsLimit (sch_payments boundaryExampleSchedule)
           = [Some True, None, None, None, None, None, None, None]"
    and "sm_prepaymentLimitViolations (sch_summary boundaryExampleSchedule) = Some 1"
proof -
  note r1 = projr_run [OF boundaryExample_run, folded boundaryExampleSchedule_def]
  note r2 = r1 [THEN conjunct2]
  note r3 = r2 [THEN conjunct2]
  show "calculateAmortizationSchedule boundaryExample = Inr boundaryExampleSchedule"
    by (rule r1 [THEN conjunct1])
  show "map pd_additionalPayment (sch_payments boundaryExampleSchedule)
           = [126000, 0, 0, 0, 0, 0, 0, 0]"
    by (rule r2 [THEN conjunct1])
  show "map pd_exceedsLimit (sch_payments boundaryExampleSchedule)
           = [Some True, None, None, None, None, None, None, None]"
    by (rule r3 [THEN conjunct1])
  show "sm_prepaymentLimitViolations (sch_summary boundaryExampleSchedule) = Some 1"
    by (rule r3 [THEN conjunct2])
qed

text \<open>
  The running total is kept over a payment without an additional payment: of two
  additional payments of 50000 at payments 1 and 3 of one anniversary year, against
  15 percent of 562500, the second is flagged.
\<close>

lemma gapExample_run:
  "\<exists>s. calculateAmortizationSchedule gapExample = Inr s
        \<and> map pd_additionalPayment (sch_payments s)
            = [50000, 0, 50000, 0, 0, 0, 0, 0, 0, 0]
        \<and> map pd_exceedsLimit (sch_payments s)
            = [None, None, Some True, None, None, None, None, None, None, None]
        \<and> sm_prepaymentLimitViolations (sch_summary s) = Some 1"
  by (simp add: gapExample_def limitExample_def engine_eval cong: let_weak_cong)

text \<open>
  Claim C5 says that an extra payment is flagged exactly when the running total of its
  period is strictly greater than the original principal times the limit percentage over
  100. The source computes the limit as \<^verbatim>\<open>principal * (lumpSumLimitPercent / 100)\<close> in
  doubles. On \<open>boundaryExample\<close> the principal times 35 over 100 is 126000, the limit that
  the form displays, and the first extra payment is exactly 126000, which is not above it;
  the limit that the engine compares with is below 126000, so the engine flags the payment
  and counts one violation.
\<close>

theorem limit_boundary_flagged:
  "calculateAmortizationSchedule boundaryExample = Inr boundaryExampleSchedule
   \<and> principal boundaryExample * lumpSumLimitPercent (the (prepaymentLimits boundaryExample)) / 100
       = 126000
   \<and> pd_additionalPayment (sch_payments boundaryExampleSchedule ! 0) = 126000
   \<and> pd_exceedsLimit (sch_payments boundaryExampleSchedule ! 0) = Some True
   \<and> sm_prepaymentLimitViolations (sch_summary boundaryExampleSchedule) = Some 1
   \<and> doubleTimes (principal boundaryExample)
         (doubleDivide (lumpSumLimitPercent (the (prepaymentLimits boundaryExample))) 100)
       < 126000"
proof -
  have p: "principal boundaryExample = 360000"
    "lumpSumLimitPercent (the (prepaymentLimits boundaryExample)) = 35"
    by (simp_all add: boundaryExample_def)
  have a: "pd_additionalPayment (sch_payments boundaryExampleSchedule ! 0) = 126000"
    using map_eq_nth [OF boundaryExample_schedule(2), of 0] by simp
  have f: "pd_exceedsLimit (sch_payments boundaryExampleSchedule ! 0) = Some True"
    using map_eq_nth [OF boundaryExample_schedule(3), of 0] by simp
  have l: "doubleTimes (principal boundaryExample)
             (doubleDivide (lumpSumLimitPercent (the (prepaymentLimits boundaryExample))) 100)
           < 126000"
    unfolding p boundary_limit(2) by simp
  have e: "principal boundaryExample
             * lumpSumLimitPercent (the (prepaymentLimits boundaryExample)) / 100 = 126000"
    unfolding p by simp
  from boundaryExample_schedule(1) e a f boundaryExample_schedule(4) l
  show ?thesis by (intro conjI)
qed

subsection \<open>The second simulation\<close>




















subsection \<open>Runs of the engine at a periodic rate of 1 percent\<close>






subsection \<open>Savings\<close>




end
